theory Spec2Isabelle
  imports Main
begin

section \<open>Overview\<close>

text \<open>
  A shallow embedding of the composition engine of \<^verbatim>\<open>src/app/entity.ts\<close>: the base
  class \<^verbatim>\<open>Entity\<close> with its registry of listeners, and the composites
  \<^verbatim>\<open>ParallelEntity\<close>, \<^verbatim>\<open>FunctionalEntity\<close>, \<^verbatim>\<open>DeflatingCompositeEntity\<close>,
  \<^verbatim>\<open>Alternative\<close>, \<^verbatim>\<open>SwitchingEntity\<close>, \<^verbatim>\<open>EntitySequence\<close> and \<^verbatim>\<open>StateMachine\<close> with
  \<^verbatim>\<open>makeTransitionTable\<close>.

  \<^item> An object is a record of its fields; a method takes the record and returns the new
    one. A method that can throw returns \<open>error + state\<close>, with \<open>Inl\<close> for the exception.
  \<^item> A class is known to its parent by its hooks (\<^verbatim>\<open>_setup\<close>, \<^verbatim>\<open>_update\<close>, \<^verbatim>\<open>_teardown\<close>,
    \<^verbatim>\<open>_onSignal\<close>), which are arbitrary functions on the state of the child. They do not
    throw and do not reach the parent or a sibling.
  \<^item> A composite holds its children by value. Where the source keeps a second reference
    to a child (\<^verbatim>\<open>currentEntity\<close>, \<^verbatim>\<open>state\<close>), the model writes a change to both places.
  \<^item> The methods that signal (\<^verbatim>\<open>onSignal\<close> of the composites) or remove children
    (\<^verbatim>\<open>removeEntity\<close>, \<^verbatim>\<open>removeAllEntities\<close>) and the classes that render (video, sprites,
    buttons) are left out.
\<close>

section \<open>Values, frames and configuration bags\<close>

text \<open>
  The entity framework of \<^verbatim>\<open>src/app/entity.ts\<close> is dynamically typed where it matters
  (\<^verbatim>\<open>requestedTransition: any\<close>, transition descriptors, configuration bags), so the
  values that flow through it are modelled by one datatype of JavaScript values.
  Numbers are integers here: the code modelled never computes with them, it only tests
  them for truthiness or turns a list index into a string.
\<close>

datatype jsval =
    JUndefined
  | JNull
  | JBool bool
  | JNum int
  | JStr string
  | JObj "(string \<times> jsval) list"

text \<open>JavaScript truthiness, as tested by \<^verbatim>\<open>if (x)\<close> and \<^verbatim>\<open>!x\<close>.\<close>

fun truthy :: "jsval \<Rightarrow> bool" where
  "truthy JUndefined = False"
| "truthy JNull = False"
| "truthy (JBool b) = b"
| "truthy (JNum n) = (n \<noteq> 0)"
| "truthy (JStr s) = (s \<noteq> [])"
| "truthy (JObj ps) = True"

datatype error = TypeError string | Error string

text \<open>
  \<^verbatim>\<open>FrameInfo\<close>. The times are opaque to the composition logic. A frame argument is a
  \<open>frameInfo option\<close>: \<open>None\<close> is \<^verbatim>\<open>undefined\<close>, which the code passes on when it
  forwards \<^verbatim>\<open>this.lastFrameInfo\<close> of an entity that never saw a frame.
\<close>

record frameInfo =
  playTime :: int
  timeSinceStart :: int
  timeSinceLastFrame :: int
  timeScale :: int
  gameState :: string

text \<open>
  \<^verbatim>\<open>EntityConfig\<close>: a bag of named values; the container handle is one of them.
  \<open>None\<close> is \<^verbatim>\<open>null\<close> or \<^verbatim>\<open>undefined\<close>.
\<close>

type_synonym entityConfig = "(string \<times> jsval) list"

text \<open>
  \<^verbatim>\<open>IEventListener\<close>. Emitters and callbacks are objects compared by identity; the
  model names each by a number.
\<close>

record eventListener =
  emitter :: nat
  event :: string
  cb :: nat

section \<open>The base class Entity\<close>

text \<open>
  The fields of \<^verbatim>\<open>Entity\<close>, followed by two fields of instrumentation that are not in
  the source: \<open>consoleErrors\<close> collects what the entity passes to \<^verbatim>\<open>console.error\<close>, and
  \<open>childCalls\<close> lists, oldest first, the lifecycle calls a composite makes on its
  children, each with the list index the child had at the time of the call.
  Subclasses extend the record with their own fields.
\<close>

datatype childCall = SetupCall nat | UpdateCall nat | TeardownCall nat

record entity =
  isSetup :: bool
  eventListeners :: "eventListener list"
  requestedTransition :: jsval
  entityConfig :: "entityConfig option"
  lastFrameInfo :: "frameInfo option"
  consoleErrors :: "string list"
  childCalls :: "childCall list"

text \<open>
  The overridable methods \<^verbatim>\<open>_setup\<close>, \<^verbatim>\<open>_update\<close>, \<^verbatim>\<open>_teardown\<close> and \<^verbatim>\<open>_onSignal\<close>
  of a class, as functions on the state of its instances. (An Isabelle name cannot start
  with an underscore: \<open>u_setup\<close> is \<^verbatim>\<open>_setup\<close>.) A subclass that overrides the public
  method instead and calls \<^verbatim>\<open>super\<close> first (in \<^verbatim>\<open>setup\<close>, \<^verbatim>\<open>update\<close>) or last
  (in \<^verbatim>\<open>teardown\<close>) runs its code at the place where the hook runs.
\<close>

record 'e hooks =
  u_setup :: "frameInfo option \<Rightarrow> entityConfig option \<Rightarrow> 'e \<Rightarrow> 'e"
  u_update :: "frameInfo option \<Rightarrow> 'e \<Rightarrow> 'e"
  u_teardown :: "frameInfo option \<Rightarrow> 'e \<Rightarrow> 'e"
  u_onSignal :: "frameInfo option \<Rightarrow> string \<Rightarrow> jsval \<Rightarrow> 'e \<Rightarrow> 'e"

text \<open>The four empty methods of \<^verbatim>\<open>Entity\<close> itself.\<close>

definition baseHooks :: "'e hooks" where
  "baseHooks =
     \<lparr> u_setup = (\<lambda>fi c e. e), u_update = (\<lambda>fi e. e),
       u_teardown = (\<lambda>fi e. e), u_onSignal = (\<lambda>fi s d e. e) \<rparr>"

text \<open>A freshly constructed \<^verbatim>\<open>Entity\<close>: the field initialisers of the class.\<close>

definition Entity_new :: entity where
  "Entity_new =
     \<lparr> isSetup = False, eventListeners = [], requestedTransition = JUndefined,
       entityConfig = None, lastFrameInfo = None, consoleErrors = [], childCalls = [] \<rparr>"

definition console_error :: "string \<Rightarrow> 'a entity_scheme \<Rightarrow> 'a entity_scheme" where
  "console_error msg e = e\<lparr>consoleErrors := consoleErrors e @ [msg]\<rparr>"

definition Entity_setup ::
  "'a entity_scheme hooks \<Rightarrow> frameInfo option \<Rightarrow> entityConfig option \<Rightarrow>
   'a entity_scheme \<Rightarrow> 'a entity_scheme" where
  "Entity_setup H fi c e =
     (let e1 = (if isSetup e then console_error ''setup() called twice'' e else e);
          e2 = e1\<lparr>entityConfig := c, lastFrameInfo := fi, isSetup := True,
                  requestedTransition := JNull\<rparr>
      in u_setup H fi c e2)"

definition Entity_update ::
  "'a entity_scheme hooks \<Rightarrow> frameInfo option \<Rightarrow> 'a entity_scheme \<Rightarrow> 'a entity_scheme" where
  "Entity_update H fi e =
     (let e1 = (if \<not> isSetup e then console_error ''update() called before setup()'' e else e);
          e2 = e1\<lparr>lastFrameInfo := fi\<rparr>
      in u_update H fi e2)"

text \<open>
  \<^verbatim>\<open>_on\<close> records the listener; the subscription itself (\<^verbatim>\<open>emitter.on\<close>) happens in the
  PIXI emitter, outside the entity.
\<close>

definition Entity_on :: "nat \<Rightarrow> string \<Rightarrow> nat \<Rightarrow> 'a entity_scheme \<Rightarrow> 'a entity_scheme" where
  "Entity_on em ev c e =
     e\<lparr>eventListeners := eventListeners e @ [\<lparr>emitter = em, event = ev, cb = c\<rparr>]\<rparr>"

text \<open>
  \<^verbatim>\<open>_off(emitter?, event?, cb?)\<close>. An absent argument is \<open>None\<close>; \<^verbatim>\<open>!event\<close> also holds
  for the empty string. The listeners to remove are chosen by callback if one is given,
  else by event, else by emitter, else all of them; the registry keeps the others.
\<close>

definition Entity_off ::
  "nat option \<Rightarrow> string option \<Rightarrow> nat option \<Rightarrow> 'a entity_scheme \<Rightarrow> 'a entity_scheme" where
  "Entity_off em ev c e =
     (let toRemove =
            (case c of
               None \<Rightarrow>
                 (if ev = None \<or> ev = Some [] then
                    (case em of
                       None \<Rightarrow> eventListeners e
                     | Some m \<Rightarrow> filter (\<lambda>l. emitter l = m) (eventListeners e))
                  else filter (\<lambda>l. Some (event l) = ev) (eventListeners e))
             | Some k \<Rightarrow> filter (\<lambda>l. cb l = k) (eventListeners e))
      in e\<lparr>eventListeners := filter (\<lambda>l. l \<notin> set toRemove) (eventListeners e)\<rparr>)"

definition Entity_teardown ::
  "'a entity_scheme hooks \<Rightarrow> frameInfo option \<Rightarrow> 'a entity_scheme \<Rightarrow> 'a entity_scheme" where
  "Entity_teardown H fi e =
     (let e1 = (if \<not> isSetup e then console_error ''teardown() called before setup()'' e else e);
          e2 = e1\<lparr>lastFrameInfo := fi\<rparr>;
          e3 = u_teardown H fi e2;
          e4 = Entity_off None None None e3
      in e4\<lparr>entityConfig := None, isSetup := False\<rparr>)"

definition Entity_onSignal ::
  "'a entity_scheme hooks \<Rightarrow> frameInfo option \<Rightarrow> string \<Rightarrow> jsval \<Rightarrow>
   'a entity_scheme \<Rightarrow> 'a entity_scheme" where
  "Entity_onSignal H fi s d e =
     (let e1 = (if entityConfig e = None then console_error ''onSignal() called before setup()'' e
                else e);
          e2 = e1\<lparr>lastFrameInfo := fi\<rparr>
      in u_onSignal H fi s d e2)"

text \<open>
  What a caller does with an entity between its setup and its teardown: updates and
  signals, in any order.
\<close>

datatype driverCall = DoUpdate "frameInfo option" | DoSignal "frameInfo option" string jsval

fun Entity_drive ::
  "'a entity_scheme hooks \<Rightarrow> driverCall list \<Rightarrow> 'a entity_scheme \<Rightarrow> 'a entity_scheme" where
  "Entity_drive H [] e = e"
| "Entity_drive H (DoUpdate fi # cs) e = Entity_drive H cs (Entity_update H fi e)"
| "Entity_drive H (DoSignal fi s d # cs) e = Entity_drive H cs (Entity_onSignal H fi s d e)"

text \<open>
  No class of the source writes \<^verbatim>\<open>isSetup\<close> outside \<^verbatim>\<open>Entity.setup\<close> and
  \<^verbatim>\<open>Entity.teardown\<close>: the hooks of a class leave the flag as they find it.
\<close>

definition hooksKeepIsSetup :: "'a entity_scheme hooks \<Rightarrow> bool" where
  "hooksKeepIsSetup H \<longleftrightarrow>
     (\<forall>fi c e. isSetup (u_setup H fi c e) = isSetup e) \<and>
     (\<forall>fi e. isSetup (u_update H fi e) = isSetup e) \<and>
     (\<forall>fi e. isSetup (u_teardown H fi e) = isSetup e) \<and>
     (\<forall>fi s d e. isSetup (u_onSignal H fi s d e) = isSetup e)"

text \<open>
  A class for examples, in the manner of \<^verbatim>\<open>WaitForEvent\<close> and \<^verbatim>\<open>Block\<close>: it subscribes
  to an event in \<^verbatim>\<open>_setup\<close>, requests the transition \<^verbatim>\<open>true\<close> in \<^verbatim>\<open>_update\<close> and
  unsubscribes nothing in \<^verbatim>\<open>_teardown\<close>.
\<close>

definition listeningHooks :: "'a entity_scheme hooks" where
  "listeningHooks =
     \<lparr> u_setup = (\<lambda>fi c e. Entity_on 7 ''pointertap'' 3 e),
       u_update = (\<lambda>fi e. e\<lparr>requestedTransition := JBool True\<rparr>),
       u_teardown = (\<lambda>fi e. e),
       u_onSignal = (\<lambda>fi s d e. e) \<rparr>"

definition frame0 :: frameInfo where
  "frame0 = \<lparr> playTime = 0, timeSinceStart = 0, timeSinceLastFrame = 0, timeScale = 1,
              gameState = ''playing'' \<rparr>"

section \<open>Configuration overrides\<close>

text \<open>
  The second argument of \<^verbatim>\<open>processEntityConfig\<close> is typed \<^verbatim>\<open>any\<close>. \<open>AcNone\<close> stands for
  every falsy value, \<open>AcFn\<close> for a function of the parent's bag, \<open>AcBag\<close> for a bag.
  \<open>AcEntity\<close> is an entity object standing where a configuration is expected, which is
  what the constructor of \<^verbatim>\<open>FunctionalEntity\<close> stores.
\<close>

datatype 'c alteredConfig =
    AcNone
  | AcBag entityConfig
  | AcFn "entityConfig option \<Rightarrow> entityConfig option"
  | AcEntity 'c

text \<open>
  An entity object read as a configuration bag is the bag of its own fields. Only the
  plain fields of the base class are listed.
\<close>

definition entityAsConfig :: "'a entity_scheme \<Rightarrow> entityConfig" where
  "entityAsConfig e =
     [(''isSetup'', JBool (isSetup e)),
      (''requestedTransition'', requestedTransition e),
      (''entityConfig'', (case entityConfig e of None \<Rightarrow> JNull | Some b \<Rightarrow> JObj b))]"

fun processEntityConfig ::
  "entityConfig option \<Rightarrow> 'a entity_scheme alteredConfig \<Rightarrow> entityConfig option" where
  "processEntityConfig c AcNone = c"
| "processEntityConfig c (AcFn g) = g c"
| "processEntityConfig c (AcBag b) = Some b"
| "processEntityConfig c (AcEntity e) = Some (entityAsConfig e)"

text \<open>\<^verbatim>\<open>extendConfig\<close>: the parent's entries, overridden and followed by those of \<open>config\<close>.\<close>

definition extendConfig :: "entityConfig \<Rightarrow> entityConfig option \<Rightarrow> entityConfig option" where
  "extendConfig config c =
     Some (filter (\<lambda>kv. fst kv \<notin> fst ` set config) (case c of None \<Rightarrow> [] | Some b \<Rightarrow> b) @ config)"

section \<open>JavaScript arrays\<close>

text \<open>
  Reading an array past its end gives \<^verbatim>\<open>undefined\<close>; the caller names what that is in
  the element type. Writing at or past the end extends the array; the holes that leaves
  are \<^verbatim>\<open>undefined\<close> too.
\<close>

definition js_get :: "'a \<Rightarrow> 'a list \<Rightarrow> nat \<Rightarrow> 'a" where
  "js_get undef xs i = (if i < length xs then xs ! i else undef)"

definition js_set :: "'a \<Rightarrow> 'a list \<Rightarrow> nat \<Rightarrow> 'a \<Rightarrow> 'a list" where
  "js_set undef xs i v =
     (if i < length xs then xs[i := v] else xs @ replicate (i - length xs) undef @ [v])"

text \<open>\<^verbatim>\<open>xs.splice(i, 1)\<close>: remove the element at index \<open>i\<close>, if there is one.\<close>

definition splice1 :: "nat \<Rightarrow> 'a list \<Rightarrow> 'a list" where
  "splice1 i xs = take i xs @ drop (Suc i) xs"

section \<open>ParallelEntity\<close>

text \<open>
  The three index-aligned arrays of the class. An element of \<open>pe_entities\<close> is \<open>None\<close>
  when the array holds \<^verbatim>\<open>null\<close> or \<^verbatim>\<open>undefined\<close> there. In \<open>pe_entityIsActive\<close> an
  \<^verbatim>\<open>undefined\<close> element is \<open>False\<close>: the code only tests the elements for truthiness.
  A child is held by value: the model has each object in one place of one list, and a
  child's hooks act on the child alone.
\<close>

record 'x parallelEntity = entity +
  pe_entities :: "'x entity_scheme option list"
  pe_entityConfigs :: "'x entity_scheme alteredConfig list"
  pe_entityIsActive :: "bool list"
  pe_autoTransition :: bool

definition logCall :: "childCall \<Rightarrow> 'a entity_scheme \<Rightarrow> 'a entity_scheme" where
  "logCall k e = e\<lparr>childCalls := childCalls e @ [k]\<rparr>"

text \<open>
  \<^verbatim>\<open>addEntity(entity, entityConfig = null)\<close>. The test \<^verbatim>\<open>this.isSetup && !entity.isSetup\<close>
  reads a field of \<open>entity\<close> only when the composite is set up; on \<^verbatim>\<open>null\<close> that read
  throws.
\<close>

definition ParallelEntity_addEntity ::
  "'x entity_scheme hooks \<Rightarrow> 'x entity_scheme option \<Rightarrow> 'x entity_scheme alteredConfig \<Rightarrow>
   ('x, 'b) parallelEntity_scheme \<Rightarrow> error + ('x, 'b) parallelEntity_scheme" where
  "ParallelEntity_addEntity H ent cfg p =
     (let p1 = p\<lparr>pe_entities := pe_entities p @ [ent],
                 pe_entityConfigs := pe_entityConfigs p @ [cfg],
                 pe_entityIsActive := pe_entityIsActive p @ [True]\<rparr>
      in if isSetup p1 then
           (case ent of
              None \<Rightarrow> Inl (TypeError ''Cannot read properties of null (reading isSetup)'')
            | Some e \<Rightarrow>
                if \<not> isSetup e then
                  (let newConfig = processEntityConfig (entityConfig p1) cfg;
                       i = length (pe_entities p)
                   in Inr (logCall (SetupCall i)
                        (p1\<lparr>pe_entities :=
                              (pe_entities p1)[i := Some (Entity_setup H (lastFrameInfo p1) newConfig e)]\<rparr>)))
                else Inr p1)
         else Inr p1)"

text \<open>
  An element of the constructor's array: an entity, or an object
  \<^verbatim>\<open>{ entity:, entityConfig: }\<close> either of whose properties may be missing.
\<close>

datatype 'c entityArg = ArgEntity 'c | ArgPair "'c option" "'c alteredConfig"

fun ParallelEntity_addArgs ::
  "'x entity_scheme hooks \<Rightarrow> 'x entity_scheme entityArg list \<Rightarrow>
   ('x, 'b) parallelEntity_scheme \<Rightarrow> error + ('x, 'b) parallelEntity_scheme" where
  "ParallelEntity_addArgs H [] p = Inr p"
| "ParallelEntity_addArgs H (ArgEntity e # as) p =
     (case ParallelEntity_addEntity H (Some e) AcNone p of
        Inl err \<Rightarrow> Inl err
      | Inr p1 \<Rightarrow> ParallelEntity_addArgs H as p1)"
| "ParallelEntity_addArgs H (ArgPair e c # as) p =
     (case ParallelEntity_addEntity H e c p of
        Inl err \<Rightarrow> Inl err
      | Inr p1 \<Rightarrow> ParallelEntity_addArgs H as p1)"

text \<open>
  The constructor. \<^verbatim>\<open>util.setupOptions\<close> is not among the sources; the call gives it
  the default \<^verbatim>\<open>autoTransition: false\<close>, used when the options have no such key.
\<close>

definition ParallelEntity_empty :: "bool option \<Rightarrow> 'x parallelEntity" where
  "ParallelEntity_empty opt =
     entity.extend Entity_new
       (parallelEntity.fields [] [] [] (case opt of None \<Rightarrow> False | Some b \<Rightarrow> b))"

definition ParallelEntity_new ::
  "'x entity_scheme hooks \<Rightarrow> 'x entity_scheme entityArg list \<Rightarrow> bool option \<Rightarrow>
   error + 'x parallelEntity" where
  "ParallelEntity_new H args opt = ParallelEntity_addArgs H args (ParallelEntity_empty opt)"

text \<open>The body of the loop of \<^verbatim>\<open>setup\<close>, for the index \<open>i\<close>, and the loop.\<close>

definition ParallelEntity_setup_child ::
  "'x entity_scheme hooks \<Rightarrow> frameInfo option \<Rightarrow> nat \<Rightarrow>
   ('x, 'b) parallelEntity_scheme \<Rightarrow> error + ('x, 'b) parallelEntity_scheme" where
  "ParallelEntity_setup_child H fi i p =
     (case pe_entities p ! i of
        None \<Rightarrow> Inl (TypeError ''Cannot read properties of null (reading isSetup)'')
      | Some e \<Rightarrow>
          (let p1 = (if \<not> isSetup e then
                       logCall (SetupCall i)
                         (p\<lparr>pe_entities := (pe_entities p)
                             [i := Some (Entity_setup H fi
                                (processEntityConfig (entityConfig p)
                                   (js_get AcNone (pe_entityConfigs p) i)) e)]\<rparr>)
                     else p)
           in Inr (p1\<lparr>pe_entityIsActive := js_set False (pe_entityIsActive p1) i True\<rparr>)))"

function ParallelEntity_setup_loop ::
  "'x entity_scheme hooks \<Rightarrow> frameInfo option \<Rightarrow> nat \<Rightarrow>
   ('x, 'b) parallelEntity_scheme \<Rightarrow> error + ('x, 'b) parallelEntity_scheme" where
  "ParallelEntity_setup_loop H fi i p =
     (if i < length (pe_entities p) then
        (case ParallelEntity_setup_child H fi i p of
           Inl err \<Rightarrow> Inl err
         | Inr p1 \<Rightarrow> ParallelEntity_setup_loop H fi (Suc i) p1)
      else Inr p)"
  by pat_completeness auto
termination
  by (relation "measure (\<lambda>(H, fi, i, p). length (pe_entities p) - i)")
     (auto simp: ParallelEntity_setup_child_def logCall_def Let_def split: option.splits if_splits)

definition ParallelEntity_setup ::
  "'x entity_scheme hooks \<Rightarrow> frameInfo option \<Rightarrow> entityConfig option \<Rightarrow>
   ('x, 'b) parallelEntity_scheme \<Rightarrow> error + ('x, 'b) parallelEntity_scheme" where
  "ParallelEntity_setup H fi c p = ParallelEntity_setup_loop H fi 0 (Entity_setup baseHooks fi c p)"

text \<open>
  The body of the loop of \<^verbatim>\<open>update\<close>: an active child is updated and, if it then
  requests a transition, torn down at once and marked inactive.
\<close>

definition ParallelEntity_update_child ::
  "'x entity_scheme hooks \<Rightarrow> frameInfo option \<Rightarrow> nat \<Rightarrow>
   ('x, 'b) parallelEntity_scheme \<Rightarrow> error + ('x, 'b) parallelEntity_scheme" where
  "ParallelEntity_update_child H fi i p =
     (if js_get False (pe_entityIsActive p) i then
        (case pe_entities p ! i of
           None \<Rightarrow> Inl (TypeError ''Cannot read properties of null (reading update)'')
         | Some e \<Rightarrow>
             (let e1 = Entity_update H fi e;
                  p1 = logCall (UpdateCall i) (p\<lparr>pe_entities := (pe_entities p)[i := Some e1]\<rparr>)
              in if truthy (requestedTransition e1) then
                   Inr (logCall (TeardownCall i)
                          (p1\<lparr>pe_entities := (pe_entities p1)[i := Some (Entity_teardown H fi e1)],
                              pe_entityIsActive := js_set False (pe_entityIsActive p1) i False\<rparr>))
                 else Inr p1))
      else Inr p)"

function ParallelEntity_update_loop ::
  "'x entity_scheme hooks \<Rightarrow> frameInfo option \<Rightarrow> nat \<Rightarrow>
   ('x, 'b) parallelEntity_scheme \<Rightarrow> error + ('x, 'b) parallelEntity_scheme" where
  "ParallelEntity_update_loop H fi i p =
     (if i < length (pe_entities p) then
        (case ParallelEntity_update_child H fi i p of
           Inl err \<Rightarrow> Inl err
         | Inr p1 \<Rightarrow> ParallelEntity_update_loop H fi (Suc i) p1)
      else Inr p)"
  by pat_completeness auto
termination
  by (relation "measure (\<lambda>(H, fi, i, p). length (pe_entities p) - i)")
     (auto simp: ParallelEntity_update_child_def logCall_def Let_def split: option.splits if_splits)

text \<open>
  \<^verbatim>\<open>update\<close>: the update of the base class (\<^verbatim>\<open>ParallelEntity\<close> has no \<^verbatim>\<open>_update\<close> of
  its own), the loop over the children, then the automatic transition.
\<close>

definition ParallelEntity_update ::
  "'x entity_scheme hooks \<Rightarrow> frameInfo option \<Rightarrow>
   ('x, 'b) parallelEntity_scheme \<Rightarrow> error + ('x, 'b) parallelEntity_scheme" where
  "ParallelEntity_update H fi p =
     (case ParallelEntity_update_loop H fi 0 (Entity_update baseHooks fi p) of
        Inl err \<Rightarrow> Inl err
      | Inr p1 \<Rightarrow>
          Inr (if pe_autoTransition p1 \<and> \<not> list_ex (\<lambda>a. a) (pe_entityIsActive p1)
               then p1\<lparr>requestedTransition := JBool True\<rparr> else p1))"

definition ParallelEntity_teardown_child ::
  "'x entity_scheme hooks \<Rightarrow> frameInfo option \<Rightarrow> nat \<Rightarrow>
   ('x, 'b) parallelEntity_scheme \<Rightarrow> error + ('x, 'b) parallelEntity_scheme" where
  "ParallelEntity_teardown_child H fi i p =
     (if js_get False (pe_entityIsActive p) i then
        (case pe_entities p ! i of
           None \<Rightarrow> Inl (TypeError ''Cannot read properties of null (reading teardown)'')
         | Some e \<Rightarrow>
             Inr (logCall (TeardownCall i)
                    (p\<lparr>pe_entities := (pe_entities p)[i := Some (Entity_teardown H fi e)],
                       pe_entityIsActive := js_set False (pe_entityIsActive p) i False\<rparr>)))
      else Inr p)"

function ParallelEntity_teardown_loop ::
  "'x entity_scheme hooks \<Rightarrow> frameInfo option \<Rightarrow> nat \<Rightarrow>
   ('x, 'b) parallelEntity_scheme \<Rightarrow> error + ('x, 'b) parallelEntity_scheme" where
  "ParallelEntity_teardown_loop H fi i p =
     (if i < length (pe_entities p) then
        (case ParallelEntity_teardown_child H fi i p of
           Inl err \<Rightarrow> Inl err
         | Inr p1 \<Rightarrow> ParallelEntity_teardown_loop H fi (Suc i) p1)
      else Inr p)"
  by pat_completeness auto
termination
  by (relation "measure (\<lambda>(H, fi, i, p). length (pe_entities p) - i)")
     (auto simp: ParallelEntity_teardown_child_def logCall_def Let_def split: option.splits if_splits)

text \<open>\<^verbatim>\<open>teardown\<close>: the children that are still active first, the base class last.\<close>

definition ParallelEntity_teardown ::
  "'x entity_scheme hooks \<Rightarrow> frameInfo option \<Rightarrow>
   ('x, 'b) parallelEntity_scheme \<Rightarrow> error + ('x, 'b) parallelEntity_scheme" where
  "ParallelEntity_teardown H fi p =
     (case ParallelEntity_teardown_loop H fi 0 p of
        Inl err \<Rightarrow> Inl err
      | Inr p1 \<Rightarrow> Inr (Entity_teardown baseHooks fi p1))"

text \<open>
  What one pass of \<^verbatim>\<open>update\<close> means for one child, read off the loop body: whether the
  child requests a transition once updated, the child after the pass, and the calls it
  receives. \<open>a\<close> is the child's active flag before the pass.
\<close>

definition childCompletes ::
  "'x entity_scheme hooks \<Rightarrow> frameInfo option \<Rightarrow> 'x entity_scheme option \<Rightarrow> bool" where
  "childCompletes H fi eo =
     (case eo of
        None \<Rightarrow> False
      | Some e \<Rightarrow> truthy (requestedTransition (Entity_update H fi e)))"

definition childAfterUpdate ::
  "'x entity_scheme hooks \<Rightarrow> frameInfo option \<Rightarrow> bool \<Rightarrow> 'x entity_scheme option \<Rightarrow>
   'x entity_scheme option" where
  "childAfterUpdate H fi a eo =
     (case eo of
        None \<Rightarrow> None
      | Some e \<Rightarrow>
          if a then
            (if truthy (requestedTransition (Entity_update H fi e))
             then Some (Entity_teardown H fi (Entity_update H fi e))
             else Some (Entity_update H fi e))
          else Some e)"

definition callsOnChild ::
  "'x entity_scheme hooks \<Rightarrow> frameInfo option \<Rightarrow> nat \<Rightarrow> bool \<Rightarrow> 'x entity_scheme option \<Rightarrow>
   childCall list" where
  "callsOnChild H fi i a eo =
     (if a then UpdateCall i # (if childCompletes H fi eo then [TeardownCall i] else []) else [])"

text \<open>Every child that is marked active is an object, not \<^verbatim>\<open>null\<close>.\<close>

definition activeChildrenPresent :: "('x, 'b) parallelEntity_scheme \<Rightarrow> bool" where
  "activeChildrenPresent p =
     list_all (\<lambda>j. js_get False (pe_entityIsActive p) j \<longrightarrow> pe_entities p ! j \<noteq> None)
       [0..<length (pe_entities p)]"

section \<open>A class for examples\<close>

text \<open>
  A leaf in the manner of \<^verbatim>\<open>Block\<close>, whose \<^verbatim>\<open>done(transition)\<close> someone calls on a
  schedule: the instance carries the list of values its \<^verbatim>\<open>requestedTransition\<close> takes
  at its successive updates. With an empty list it never requests a transition.
\<close>

definition scriptedHooks :: "jsval list entity_scheme hooks" where
  "scriptedHooks =
     \<lparr> u_setup = (\<lambda>fi c e. e),
       u_update = (\<lambda>fi e.
          (case entity.more e of
             [] \<Rightarrow> e
           | v # vs \<Rightarrow> entity.more_update (\<lambda>_. vs) (e\<lparr>requestedTransition := v\<rparr>))),
       u_teardown = (\<lambda>fi e. e),
       u_onSignal = (\<lambda>fi s d e. e) \<rparr>"

definition scripted :: "jsval list \<Rightarrow> jsval list entity_scheme" where
  "scripted vs = entity.extend Entity_new vs"

section \<open>FunctionalEntity\<close>

text \<open>
  The callbacks given to the constructor; each may be missing. They are a parameter of
  the methods below rather than a field, and act on the state of the entity they are
  handed.
\<close>

record 'e entityFunctions =
  fn_setup :: "(frameInfo option \<Rightarrow> entityConfig option \<Rightarrow> 'e \<Rightarrow> 'e) option"
  fn_update :: "(frameInfo option \<Rightarrow> 'e \<Rightarrow> 'e) option"
  fn_teardown :: "(frameInfo option \<Rightarrow> 'e \<Rightarrow> 'e) option"
  fn_onSignal :: "(frameInfo option \<Rightarrow> string \<Rightarrow> jsval \<Rightarrow> 'e \<Rightarrow> 'e) option"
  fn_requestTransition :: "(frameInfo option \<Rightarrow> 'e \<Rightarrow> jsval) option"

text \<open>
  The loop of the constructor: \<^verbatim>\<open>this.addEntity(null, childEntity)\<close> for each child, the
  child in the place of the configuration.
\<close>

fun FunctionalEntity_addChildren ::
  "'x entity_scheme hooks \<Rightarrow> 'x entity_scheme list \<Rightarrow>
   ('x, 'b) parallelEntity_scheme \<Rightarrow> error + ('x, 'b) parallelEntity_scheme" where
  "FunctionalEntity_addChildren H [] p = Inr p"
| "FunctionalEntity_addChildren H (childEntity # cs) p =
     (case ParallelEntity_addEntity H None (AcEntity childEntity) p of
        Inl err \<Rightarrow> Inl err
      | Inr p1 \<Rightarrow> FunctionalEntity_addChildren H cs p1)"

definition FunctionalEntity_new ::
  "'x entity_scheme hooks \<Rightarrow> 'x entity_scheme list \<Rightarrow> error + 'x parallelEntity" where
  "FunctionalEntity_new H childEntities =
     FunctionalEntity_addChildren H childEntities (ParallelEntity_empty None)"

definition FunctionalEntity_setup ::
  "'x entity_scheme hooks \<Rightarrow> 'x parallelEntity entityFunctions \<Rightarrow> frameInfo option \<Rightarrow>
   entityConfig option \<Rightarrow> 'x parallelEntity \<Rightarrow> error + 'x parallelEntity" where
  "FunctionalEntity_setup H F fi c p =
     (case ParallelEntity_setup H fi c p of
        Inl err \<Rightarrow> Inl err
      | Inr p1 \<Rightarrow> Inr (case fn_setup F of None \<Rightarrow> p1 | Some g \<Rightarrow> g fi c p1))"

definition FunctionalEntity_update ::
  "'x entity_scheme hooks \<Rightarrow> 'x parallelEntity entityFunctions \<Rightarrow> frameInfo option \<Rightarrow>
   'x parallelEntity \<Rightarrow> error + 'x parallelEntity" where
  "FunctionalEntity_update H F fi p =
     (case ParallelEntity_update H fi p of
        Inl err \<Rightarrow> Inl err
      | Inr p1 \<Rightarrow>
          (let p2 = (case fn_update F of None \<Rightarrow> p1 | Some g \<Rightarrow> g fi p1)
           in Inr (case fn_requestTransition F of
                     None \<Rightarrow> p2
                   | Some g \<Rightarrow> p2\<lparr>requestedTransition := g fi p2\<rparr>)))"

definition FunctionalEntity_teardown ::
  "'x entity_scheme hooks \<Rightarrow> 'x parallelEntity entityFunctions \<Rightarrow> frameInfo option \<Rightarrow>
   'x parallelEntity \<Rightarrow> error + 'x parallelEntity" where
  "FunctionalEntity_teardown H F fi p =
     ParallelEntity_teardown H fi (case fn_teardown F of None \<Rightarrow> p | Some g \<Rightarrow> g fi p)"

definition noFunctions :: "'e entityFunctions" where
  "noFunctions =
     \<lparr> fn_setup = None, fn_update = None, fn_teardown = None, fn_onSignal = None,
       fn_requestTransition = None \<rparr>"

text \<open>
  The example of three children: the first and the third request a transition at their
  first update, the second never does; the parent is built with
  \<^verbatim>\<open>autoTransition: true\<close> and set up.
\<close>

definition parallelExample :: "jsval list parallelEntity" where
  "parallelExample =
     projr (ParallelEntity_setup scriptedHooks (Some frame0) (Some [])
       (projr (ParallelEntity_new scriptedHooks
          [ArgEntity (scripted [JBool True]), ArgEntity (scripted []),
           ArgEntity (scripted [JStr ''done''])] (Some True))))"

section \<open>DeflatingCompositeEntity\<close>

text \<open>
  The class keeps only the list of its live children. The declared element type
  \<^verbatim>\<open>Entity\<close> is taken at its word: no code of the repository puts \<^verbatim>\<open>null\<close> in the list.
\<close>

record 'x deflatingCompositeEntity = entity +
  dc_entities :: "'x entity_scheme list"
  dc_autoTransition :: bool

text \<open>
  The constructor: \<^verbatim>\<open>autoTransition\<close> defaults to \<^verbatim>\<open>true\<close> when the options do not
  give it.
\<close>

definition DeflatingCompositeEntity_new :: "bool option \<Rightarrow> 'x deflatingCompositeEntity" where
  "DeflatingCompositeEntity_new opt =
     entity.extend Entity_new
       (deflatingCompositeEntity.fields [] (case opt of None \<Rightarrow> True | Some b \<Rightarrow> b))"

definition logCalls :: "childCall list \<Rightarrow> 'a entity_scheme \<Rightarrow> 'a entity_scheme" where
  "logCalls ks e = e\<lparr>childCalls := childCalls e @ ks\<rparr>"

definition DeflatingCompositeEntity_addEntity ::
  "'x entity_scheme hooks \<Rightarrow> 'x entity_scheme \<Rightarrow>
   ('x, 'b) deflatingCompositeEntity_scheme \<Rightarrow> ('x, 'b) deflatingCompositeEntity_scheme" where
  "DeflatingCompositeEntity_addEntity H ent d =
     (if isSetup d \<and> \<not> isSetup ent then
        logCall (SetupCall (length (dc_entities d)))
          (d\<lparr>dc_entities := dc_entities d @ [Entity_setup H (lastFrameInfo d) (entityConfig d) ent]\<rparr>)
      else d\<lparr>dc_entities := dc_entities d @ [ent]\<rparr>)"

text \<open>\<^verbatim>\<open>setup\<close>: the base class, then every child that is not set up yet, in list order.\<close>

definition DeflatingCompositeEntity_setup ::
  "'x entity_scheme hooks \<Rightarrow> frameInfo option \<Rightarrow> entityConfig option \<Rightarrow>
   ('x, 'b) deflatingCompositeEntity_scheme \<Rightarrow> ('x, 'b) deflatingCompositeEntity_scheme" where
  "DeflatingCompositeEntity_setup H fi c d =
     (let d1 = Entity_setup baseHooks fi c d
      in logCalls (map SetupCall (filter (\<lambda>i. \<not> isSetup (dc_entities d1 ! i)) [0..<length (dc_entities d1)]))
           (d1\<lparr>dc_entities :=
                 map (\<lambda>e. if \<not> isSetup e then Entity_setup H fi c e else e) (dc_entities d1)\<rparr>))"

text \<open>
  The body of the loop of \<^verbatim>\<open>update\<close> at index \<open>i\<close>, with the index the loop goes on
  from: the same index when the child was spliced out, the next one otherwise.
\<close>

definition DeflatingCompositeEntity_update_child ::
  "'x entity_scheme hooks \<Rightarrow> frameInfo option \<Rightarrow> nat \<Rightarrow>
   ('x, 'b) deflatingCompositeEntity_scheme \<Rightarrow> ('x, 'b) deflatingCompositeEntity_scheme \<times> nat" where
  "DeflatingCompositeEntity_update_child H fi i d =
     (let e1 = Entity_update H fi (dc_entities d ! i);
          d1 = logCall (UpdateCall i) (d\<lparr>dc_entities := (dc_entities d)[i := e1]\<rparr>)
      in if truthy (requestedTransition e1) then
           (let d2 = (if isSetup e1 then
                        logCall (TeardownCall i)
                          (d1\<lparr>dc_entities := (dc_entities d1)[i := Entity_teardown H fi e1]\<rparr>)
                      else d1)
            in (d2\<lparr>dc_entities := splice1 i (dc_entities d2)\<rparr>, i))
         else (d1, Suc i))"

function DeflatingCompositeEntity_update_loop ::
  "'x entity_scheme hooks \<Rightarrow> frameInfo option \<Rightarrow> nat \<Rightarrow>
   ('x, 'b) deflatingCompositeEntity_scheme \<Rightarrow> ('x, 'b) deflatingCompositeEntity_scheme" where
  "DeflatingCompositeEntity_update_loop H fi i d =
     (if i < length (dc_entities d) then
        (case DeflatingCompositeEntity_update_child H fi i d of
           (d1, i1) \<Rightarrow> DeflatingCompositeEntity_update_loop H fi i1 d1)
      else d)"
  by pat_completeness auto
termination
  by (relation "measure (\<lambda>(H, fi, i, d). length (dc_entities d) - i)")
     (auto simp: DeflatingCompositeEntity_update_child_def logCall_def Let_def splice1_def
        split: if_splits)

definition DeflatingCompositeEntity_update ::
  "'x entity_scheme hooks \<Rightarrow> frameInfo option \<Rightarrow>
   ('x, 'b) deflatingCompositeEntity_scheme \<Rightarrow> ('x, 'b) deflatingCompositeEntity_scheme" where
  "DeflatingCompositeEntity_update H fi d =
     (let d1 = DeflatingCompositeEntity_update_loop H fi 0 (Entity_update baseHooks fi d)
      in if dc_autoTransition d1 \<and> length (dc_entities d1) = 0
         then d1\<lparr>requestedTransition := JBool True\<rparr> else d1)"

text \<open>\<^verbatim>\<open>teardown\<close>: every child of the list, set up or not, then the base class.\<close>

definition DeflatingCompositeEntity_teardown ::
  "'x entity_scheme hooks \<Rightarrow> frameInfo option \<Rightarrow>
   ('x, 'b) deflatingCompositeEntity_scheme \<Rightarrow> ('x, 'b) deflatingCompositeEntity_scheme" where
  "DeflatingCompositeEntity_teardown H fi d =
     Entity_teardown baseHooks fi
       (logCalls (map TeardownCall [0..<length (dc_entities d)])
          (d\<lparr>dc_entities := map (Entity_teardown H fi) (dc_entities d)\<rparr>))"

text \<open>
  The calls one pass of \<^verbatim>\<open>update\<close> makes on the children \<open>es\<close>, the first of which
  stands at index \<open>i\<close>: a child that completes is torn down (if it is set up) and leaves
  its index to the next child.
\<close>

fun deflatingCalls ::
  "'x entity_scheme hooks \<Rightarrow> frameInfo option \<Rightarrow> nat \<Rightarrow> 'x entity_scheme list \<Rightarrow> childCall list" where
  "deflatingCalls H fi i [] = []"
| "deflatingCalls H fi i (e # es) =
     (if truthy (requestedTransition (Entity_update H fi e)) then
        UpdateCall i # (if isSetup (Entity_update H fi e) then [TeardownCall i] else []) @
        deflatingCalls H fi i es
      else UpdateCall i # deflatingCalls H fi (Suc i) es)"

definition completesOnUpdate :: "'x entity_scheme hooks \<Rightarrow> frameInfo option \<Rightarrow> 'x entity_scheme \<Rightarrow> bool" where
  "completesOnUpdate H fi e = truthy (requestedTransition (Entity_update H fi e))"

text \<open>
  The same calls as the claim words them: a child that completes is updated, torn down
  and leaves its index to the next child.
\<close>

fun tornDownWhenComplete ::
  "'x entity_scheme hooks \<Rightarrow> frameInfo option \<Rightarrow> nat \<Rightarrow> 'x entity_scheme list \<Rightarrow> childCall list" where
  "tornDownWhenComplete H fi i [] = []"
| "tornDownWhenComplete H fi i (e # es) =
     (if completesOnUpdate H fi e then
        UpdateCall i # TeardownCall i # tornDownWhenComplete H fi i es
      else UpdateCall i # tornDownWhenComplete H fi (Suc i) es)"

text \<open>
  The example of two children: \<open>A\<close> requests a transition at its first update, \<open>B\<close> at
  its second; the parent has the default \<^verbatim>\<open>autoTransition\<close> and is set up after both
  were added.
\<close>

definition deflatingExample :: "jsval list deflatingCompositeEntity" where
  "deflatingExample =
     DeflatingCompositeEntity_setup scriptedHooks (Some frame0) (Some [])
       (DeflatingCompositeEntity_addEntity scriptedHooks (scripted [JNull, JStr ''B''])
          (DeflatingCompositeEntity_addEntity scriptedHooks (scripted [JStr ''A''])
             (DeflatingCompositeEntity_new None)))"

section \<open>Alternative\<close>

text \<open>\<^verbatim>\<open>key.toString()\<close> for an array index: its decimal digits.\<close>

fun toString :: "nat \<Rightarrow> string" where
  "toString n =
     (if n < 10 then [''0123456789'' ! n]
      else toString (n div 10) @ [''0123456789'' ! (n mod 10)])"

record 'x entityPair =
  ep_entity :: "'x entity_scheme"
  ep_transition :: string

record 'x alternative = entity +
  alt_entityPairs :: "'x entityPair list"

text \<open>
  An element of the constructor's array: an entity, or an object
  \<^verbatim>\<open>{ entity, transition }\<close> whose \<^verbatim>\<open>transition\<close> may be missing. The index of the
  element, as a string, is the label unless the object brings its own.
\<close>

datatype 'c pairArg = PairEntity 'c | PairObject 'c "string option"

fun Alternative_pair :: "'x entity_scheme pairArg \<Rightarrow> nat \<Rightarrow> 'x entityPair" where
  "Alternative_pair (PairEntity e) key = \<lparr> ep_entity = e, ep_transition = toString key \<rparr>"
| "Alternative_pair (PairObject e None) key = \<lparr> ep_entity = e, ep_transition = toString key \<rparr>"
| "Alternative_pair (PairObject e (Some t)) key = \<lparr> ep_entity = e, ep_transition = t \<rparr>"

definition Alternative_new :: "'x entity_scheme pairArg list \<Rightarrow> 'x alternative" where
  "Alternative_new entityPairs =
     entity.extend Entity_new
       (alternative.fields (map (\<lambda>(entityPair, key). Alternative_pair entityPair key)
          (zip entityPairs [0..<length entityPairs])))"

text \<open>
  The bodies of the three loops over \<^verbatim>\<open>this.entityPairs\<close>, for the pair at index \<open>i\<close>.
  In \<^verbatim>\<open>_setup\<close> and \<^verbatim>\<open>_update\<close> the assignment to \<^verbatim>\<open>this.requestedTransition\<close> is made
  for every child that requests a transition, and the loop goes on.
\<close>

definition Alternative_setup_child ::
  "'x entity_scheme hooks \<Rightarrow> frameInfo option \<Rightarrow>
   ('x, 'b) alternative_scheme \<Rightarrow> nat \<Rightarrow> ('x, 'b) alternative_scheme" where
  "Alternative_setup_child H fi a i =
     (let entityPair = alt_entityPairs a ! i;
          e1 = Entity_setup H fi (entityConfig a) (ep_entity entityPair);
          a1 = logCall (SetupCall i)
                 (a\<lparr>alt_entityPairs := (alt_entityPairs a)[i := entityPair\<lparr>ep_entity := e1\<rparr>]\<rparr>)
      in if truthy (requestedTransition e1)
         then a1\<lparr>requestedTransition := JStr (ep_transition entityPair)\<rparr>
         else a1)"

definition Alternative_update_child ::
  "'x entity_scheme hooks \<Rightarrow> frameInfo option \<Rightarrow>
   ('x, 'b) alternative_scheme \<Rightarrow> nat \<Rightarrow> ('x, 'b) alternative_scheme" where
  "Alternative_update_child H fi a i =
     (let entityPair = alt_entityPairs a ! i;
          e1 = Entity_update H fi (ep_entity entityPair);
          a1 = logCall (UpdateCall i)
                 (a\<lparr>alt_entityPairs := (alt_entityPairs a)[i := entityPair\<lparr>ep_entity := e1\<rparr>]\<rparr>)
      in if truthy (requestedTransition e1)
         then a1\<lparr>requestedTransition := JStr (ep_transition entityPair)\<rparr>
         else a1)"

definition Alternative_teardown_child ::
  "'x entity_scheme hooks \<Rightarrow> frameInfo option \<Rightarrow>
   ('x, 'b) alternative_scheme \<Rightarrow> nat \<Rightarrow> ('x, 'b) alternative_scheme" where
  "Alternative_teardown_child H fi a i =
     (let entityPair = alt_entityPairs a ! i;
          e1 = Entity_teardown H fi (ep_entity entityPair)
      in logCall (TeardownCall i)
           (a\<lparr>alt_entityPairs := (alt_entityPairs a)[i := entityPair\<lparr>ep_entity := e1\<rparr>]\<rparr>))"

text \<open>
  The methods \<^verbatim>\<open>_setup\<close>, \<^verbatim>\<open>_update\<close> and \<^verbatim>\<open>_teardown\<close> of the class: each loop visits
  the pairs in list order. \<open>H\<close> is the class of the children.
\<close>

definition alternativeHooks ::
  "'x entity_scheme hooks \<Rightarrow> ('x, 'b) alternative_scheme hooks" where
  "alternativeHooks H =
     \<lparr> u_setup = (\<lambda>fi c a. foldl (Alternative_setup_child H fi) a [0..<length (alt_entityPairs a)]),
       u_update = (\<lambda>fi a. foldl (Alternative_update_child H fi) a [0..<length (alt_entityPairs a)]),
       u_teardown = (\<lambda>fi a. foldl (Alternative_teardown_child H fi) a [0..<length (alt_entityPairs a)]),
       u_onSignal = (\<lambda>fi s d a. a) \<rparr>"

definition Alternative_setup ::
  "'x entity_scheme hooks \<Rightarrow> frameInfo option \<Rightarrow> entityConfig option \<Rightarrow>
   ('x, 'b) alternative_scheme \<Rightarrow> ('x, 'b) alternative_scheme" where
  "Alternative_setup H fi c a = Entity_setup (alternativeHooks H) fi c a"

definition Alternative_update ::
  "'x entity_scheme hooks \<Rightarrow> frameInfo option \<Rightarrow>
   ('x, 'b) alternative_scheme \<Rightarrow> ('x, 'b) alternative_scheme" where
  "Alternative_update H fi a = Entity_update (alternativeHooks H) fi a"

definition Alternative_teardown ::
  "'x entity_scheme hooks \<Rightarrow> frameInfo option \<Rightarrow>
   ('x, 'b) alternative_scheme \<Rightarrow> ('x, 'b) alternative_scheme" where
  "Alternative_teardown H fi a = Entity_teardown (alternativeHooks H) fi a"

text \<open>
  The labels of the children that request a transition once updated, in list order, and
  the pairs with their children updated.
\<close>

definition completedLabels ::
  "'x entity_scheme hooks \<Rightarrow> frameInfo option \<Rightarrow> 'x entityPair list \<Rightarrow> string list" where
  "completedLabels H fi prs =
     map ep_transition
       (filter (\<lambda>pr. truthy (requestedTransition (Entity_update H fi (ep_entity pr)))) prs)"

definition updatedPairs ::
  "'x entity_scheme hooks \<Rightarrow> frameInfo option \<Rightarrow> 'x entityPair list \<Rightarrow> 'x entityPair list" where
  "updatedPairs H fi prs = map (\<lambda>pr. pr\<lparr>ep_entity := Entity_update H fi (ep_entity pr)\<rparr>) prs"

text \<open>
  The example of the race \<^verbatim>\<open>[A, B]\<close> with default labels, set up, in which both children
  request a transition at their first update.
\<close>

definition alternativeExample :: "jsval list alternative" where
  "alternativeExample =
     Alternative_setup scriptedHooks (Some frame0) (Some [])
       (Alternative_new [PairEntity (scripted [JStr ''A'']), PairEntity (scripted [JStr ''B''])])"

section \<open>SwitchingEntity\<close>

text \<open>
  The children, their configuration overrides and the index of the active child, \<open>-1\<close>
  when there is none. The index is a JavaScript number; the model has the integers.
\<close>

record 'x switchingEntity = entity +
  sw_entities :: "'x entity_scheme list"
  sw_entityConfigs :: "'x entity_scheme alteredConfig list"
  sw_activeEntityIndex :: int

definition SwitchingEntity_new :: "'x switchingEntity" where
  "SwitchingEntity_new = entity.extend Entity_new (switchingEntity.fields [] [] (- 1))"

definition SwitchingEntity_addEntity ::
  "'x entity_scheme \<Rightarrow> 'x entity_scheme alteredConfig \<Rightarrow>
   ('x, 'b) switchingEntity_scheme \<Rightarrow> ('x, 'b) switchingEntity_scheme" where
  "SwitchingEntity_addEntity ent cfg s =
     s\<lparr>sw_entities := sw_entities s @ [ent], sw_entityConfigs := sw_entityConfigs s @ [cfg]\<rparr>"

text \<open>
  \<^verbatim>\<open>switchToIndex(index)\<close>: tear the active child down, store the index, set the new
  child up. An index past the end of the list reads \<^verbatim>\<open>undefined\<close>, and calling a method
  on that throws.
\<close>

definition SwitchingEntity_switchToIndex ::
  "'x entity_scheme hooks \<Rightarrow> int \<Rightarrow>
   ('x, 'b) switchingEntity_scheme \<Rightarrow> error + ('x, 'b) switchingEntity_scheme" where
  "SwitchingEntity_switchToIndex H index s =
     (case (if sw_activeEntityIndex s \<ge> 0 then
              (let i = nat (sw_activeEntityIndex s)
               in if i < length (sw_entities s) then
                    Inr (logCall (TeardownCall i)
                      (s\<lparr>sw_entities := (sw_entities s)
                            [i := Entity_teardown H (lastFrameInfo s) (sw_entities s ! i)]\<rparr>))
                  else Inl (TypeError ''Cannot read properties of undefined (reading teardown)''))
            else Inr s) of
        Inl err \<Rightarrow> Inl err
      | Inr s1 \<Rightarrow>
          (let s2 = s1\<lparr>sw_activeEntityIndex := index\<rparr>
           in if sw_activeEntityIndex s2 \<ge> 0 then
                (let i = nat (sw_activeEntityIndex s2);
                     c = processEntityConfig (entityConfig s2) (js_get AcNone (sw_entityConfigs s2) i)
                 in if i < length (sw_entities s2) then
                      Inr (logCall (SetupCall i)
                        (s2\<lparr>sw_entities := (sw_entities s2)
                              [i := Entity_setup H (lastFrameInfo s2) c (sw_entities s2 ! i)]\<rparr>))
                    else Inl (TypeError ''Cannot read properties of undefined (reading setup)''))
              else Inr s2))"

text \<open>
  \<^verbatim>\<open>switchToEntity(entity)\<close> finds the entity in the list by identity. The reference is
  \<^verbatim>\<open>null\<close>, or an object that stands in the list at some index, or an object that is
  not in the list.
\<close>

datatype entityRef = RefNull | RefListed nat | RefUnlisted

fun SwitchingEntity_switchToEntity ::
  "'x entity_scheme hooks \<Rightarrow> entityRef \<Rightarrow>
   ('x, 'b) switchingEntity_scheme \<Rightarrow> error + ('x, 'b) switchingEntity_scheme" where
  "SwitchingEntity_switchToEntity H RefNull s = SwitchingEntity_switchToIndex H (- 1) s"
| "SwitchingEntity_switchToEntity H RefUnlisted s = Inl (Error ''Cannot find entity'')"
| "SwitchingEntity_switchToEntity H (RefListed index) s =
     SwitchingEntity_switchToIndex H (int index) s"

text \<open>\<^verbatim>\<open>setup\<close>. The array \<^verbatim>\<open>this.entities\<close> is an object, hence truthy.\<close>

definition SwitchingEntity_setup ::
  "'x entity_scheme hooks \<Rightarrow> frameInfo option \<Rightarrow> entityConfig option \<Rightarrow>
   ('x, 'b) switchingEntity_scheme \<Rightarrow> error + ('x, 'b) switchingEntity_scheme" where
  "SwitchingEntity_setup H fi c s =
     (let s1 = Entity_setup baseHooks fi c s
      in if sw_activeEntityIndex s1 > 0
         then SwitchingEntity_switchToIndex H (sw_activeEntityIndex s1) s1
         else Inr s1)"

definition SwitchingEntity_update ::
  "'x entity_scheme hooks \<Rightarrow> frameInfo option \<Rightarrow>
   ('x, 'b) switchingEntity_scheme \<Rightarrow> error + ('x, 'b) switchingEntity_scheme" where
  "SwitchingEntity_update H fi s =
     (let s1 = Entity_update baseHooks fi s
      in if sw_activeEntityIndex s1 \<ge> 0 then
           (let i = nat (sw_activeEntityIndex s1)
            in if i < length (sw_entities s1) then
                 Inr (logCall (UpdateCall i)
                   (s1\<lparr>sw_entities := (sw_entities s1)[i := Entity_update H fi (sw_entities s1 ! i)]\<rparr>))
               else Inl (TypeError ''Cannot read properties of undefined (reading update)''))
         else Inr s1)"

definition SwitchingEntity_teardown ::
  "'x entity_scheme hooks \<Rightarrow> frameInfo option \<Rightarrow>
   ('x, 'b) switchingEntity_scheme \<Rightarrow> error + ('x, 'b) switchingEntity_scheme" where
  "SwitchingEntity_teardown H fi s =
     (case SwitchingEntity_switchToIndex H (- 1) s of
        Inl err \<Rightarrow> Inl err
      | Inr s1 \<Rightarrow> Inr (Entity_teardown baseHooks fi s1))"

text \<open>
  A fresh \<^verbatim>\<open>SwitchingEntity\<close> to which two children were added, and the same after a
  call of \<^verbatim>\<open>switchToIndex(0)\<close> made before its setup.
\<close>

definition switchingExample :: "jsval list switchingEntity" where
  "switchingExample =
     SwitchingEntity_addEntity (scripted []) AcNone
       (SwitchingEntity_addEntity (scripted []) AcNone SwitchingEntity_new)"

definition switchingExample0 :: "jsval list switchingEntity" where
  "switchingExample0 = projr (SwitchingEntity_switchToIndex scriptedHooks 0 switchingExample)"

section \<open>EntitySequence\<close>

text \<open>
  What a factory of the sequence can read of the sequence it is handed: its plain
  fields.
\<close>

record sequenceView =
  sv_currentEntityIndex :: nat
  sv_loop :: bool
  sv_requestedTransition :: jsval
  sv_entityConfig :: "entityConfig option"
  sv_lastFrameInfo :: "frameInfo option"

text \<open>\<^verbatim>\<open>EntityResolvable\<close>: an entity, or a function that makes one.\<close>

datatype 'c entityResolvable = Concrete 'c | Factory "sequenceView \<Rightarrow> 'c"

text \<open>
  \<open>seq_currentEntity\<close> is \<open>None\<close> for \<^verbatim>\<open>null\<close>. When the descriptor at the current index
  is an entity, \<^verbatim>\<open>this.currentEntity\<close> is that very object, so whatever changes the
  current entity changes the element of the list as well: \<open>setCurrentEntity\<close> writes
  both. \<^verbatim>\<open>lastRequestedTransition\<close> is declared and read, and never assigned.
\<close>

record 'x entitySequence = entity +
  seq_entities :: "'x entity_scheme entityResolvable list"
  seq_loop :: bool
  seq_currentEntityIndex :: nat
  seq_currentEntity :: "'x entity_scheme option"
  seq_lastRequestedTransition :: jsval


definition sequenceViewOf :: "('x, 'b) entitySequence_scheme \<Rightarrow> sequenceView" where
  "sequenceViewOf s =
     \<lparr> sv_currentEntityIndex = seq_currentEntityIndex s, sv_loop = seq_loop s,
       sv_requestedTransition = requestedTransition s, sv_entityConfig = entityConfig s,
       sv_lastFrameInfo = lastFrameInfo s \<rparr>"

definition setCurrentEntity ::
  "'x entity_scheme \<Rightarrow> ('x, 'b) entitySequence_scheme \<Rightarrow> ('x, 'b) entitySequence_scheme" where
  "setCurrentEntity e s =
     (let i = seq_currentEntityIndex s
      in s\<lparr>seq_currentEntity := Some e,
           seq_entities :=
             (if i < length (seq_entities s) then
                (case seq_entities s ! i of
                   Concrete _ \<Rightarrow> (seq_entities s)[i := Concrete e]
                 | Factory _ \<Rightarrow> seq_entities s)
              else seq_entities s)\<rparr>)"

text \<open>
  \<^verbatim>\<open>_activateEntity\<close>. Past the end of the list the descriptor is \<^verbatim>\<open>undefined\<close>, which
  becomes the current entity, and calling \<^verbatim>\<open>setup\<close> on it throws.
\<close>

definition EntitySequence_activateEntity ::
  "'x entity_scheme hooks \<Rightarrow> ('x, 'b) entitySequence_scheme \<Rightarrow>
   error + ('x, 'b) entitySequence_scheme" where
  "EntitySequence_activateEntity H s =
     (let i = seq_currentEntityIndex s
      in if i < length (seq_entities s) then
           (let e = (case seq_entities s ! i of
                       Factory entityDescriptor \<Rightarrow> entityDescriptor (sequenceViewOf s)
                     | Concrete entityDescriptor \<Rightarrow> entityDescriptor)
            in Inr (logCall (SetupCall i)
                 (setCurrentEntity (Entity_setup H (lastFrameInfo s) (entityConfig s) e) s)))
         else Inl (TypeError ''Cannot read properties of undefined (reading setup)''))"

definition EntitySequence_deactivateEntity ::
  "'x entity_scheme hooks \<Rightarrow> ('x, 'b) entitySequence_scheme \<Rightarrow> ('x, 'b) entitySequence_scheme" where
  "EntitySequence_deactivateEntity H s =
     (case seq_currentEntity s of
        None \<Rightarrow> s
      | Some e \<Rightarrow>
          if isSetup e then
            logCall (TeardownCall (seq_currentEntityIndex s))
              (setCurrentEntity (Entity_teardown H (lastFrameInfo s) e) s)
          else s)"

text \<open>
  \<^verbatim>\<open>_advance(transition)\<close>. The test \<^verbatim>\<open>currentEntityIndex < entities.length - 1\<close> is
  written without the subtraction, which the natural numbers would truncate.
\<close>

definition EntitySequence_advance ::
  "'x entity_scheme hooks \<Rightarrow> jsval \<Rightarrow> ('x, 'b) entitySequence_scheme \<Rightarrow>
   error + ('x, 'b) entitySequence_scheme" where
  "EntitySequence_advance H transition s =
     (if seq_currentEntityIndex s + 1 < length (seq_entities s) then
        (let s1 = EntitySequence_deactivateEntity H s
         in EntitySequence_activateEntity H
              (s1\<lparr>seq_currentEntityIndex := seq_currentEntityIndex s1 + 1\<rparr>))
      else if seq_loop s then
        (let s1 = EntitySequence_deactivateEntity H s
         in EntitySequence_activateEntity H (s1\<lparr>seq_currentEntityIndex := 0\<rparr>))
      else
        (let s1 = EntitySequence_deactivateEntity H s
         in Inr (s1\<lparr>requestedTransition := transition\<rparr>)))"



definition EntitySequence_teardown ::
  "'x entity_scheme hooks \<Rightarrow> frameInfo option \<Rightarrow> ('x, 'b) entitySequence_scheme \<Rightarrow>
   ('x, 'b) entitySequence_scheme" where
  "EntitySequence_teardown H fi s =
     Entity_teardown baseHooks fi (EntitySequence_deactivateEntity H s)"

text \<open>\<^verbatim>\<open>skip()\<close> advances with the transition \<^verbatim>\<open>{ name: "skip" }\<close>.\<close>

definition EntitySequence_skip ::
  "'x entity_scheme hooks \<Rightarrow> ('x, 'b) entitySequence_scheme \<Rightarrow>
   error + ('x, 'b) entitySequence_scheme" where
  "EntitySequence_skip H s =
     (if truthy (requestedTransition s) then Inr s
      else EntitySequence_advance H (JObj [(''name'', JStr ''skip'')]) s)"

definition EntitySequence_restart ::
  "'x entity_scheme hooks \<Rightarrow> ('x, 'b) entitySequence_scheme \<Rightarrow>
   error + ('x, 'b) entitySequence_scheme" where
  "EntitySequence_restart H s =
     (let s1 = EntitySequence_deactivateEntity H s
      in EntitySequence_activateEntity H
           (s1\<lparr>seq_currentEntityIndex := 0, requestedTransition := JBool False\<rparr>))"

text \<open>\<^verbatim>\<open>addEntity\<close> appends a descriptor and sets nothing up.\<close>

definition EntitySequence_addEntity ::
  "'x entity_scheme \<Rightarrow> ('x, 'b) entitySequence_scheme \<Rightarrow> ('x, 'b) entitySequence_scheme" where
  "EntitySequence_addEntity ent s =
     (if truthy (requestedTransition s) then s
      else s\<lparr>seq_entities := seq_entities s @ [Concrete ent]\<rparr>)"










section \<open>StateMachine\<close>

text \<open>
  Property access on a value, and the string a value turns into when it is used as a
  property key (by the operator \<^verbatim>\<open>in\<close>). Objects are looked up by their own properties.
\<close>

fun getProp :: "jsval \<Rightarrow> string \<Rightarrow> error + jsval" where
  "getProp JUndefined k = Inl (TypeError ''Cannot read properties of undefined'')"
| "getProp JNull k = Inl (TypeError ''Cannot read properties of null'')"
| "getProp (JObj ps) k = Inr (case map_of ps k of None \<Rightarrow> JUndefined | Some v \<Rightarrow> v)"
| "getProp v k = Inr JUndefined"

fun toPropertyKey :: "jsval \<Rightarrow> string" where
  "toPropertyKey JUndefined = ''undefined''"
| "toPropertyKey JNull = ''null''"
| "toPropertyKey (JBool b) = (if b then ''true'' else ''false'')"
| "toPropertyKey (JNum n) = (if n < 0 then CHR ''-'' # toString (nat (- n)) else toString (nat n))"
| "toPropertyKey (JStr s) = s"
| "toPropertyKey (JObj ps) = ''[object Object]''"

text \<open>
  What a function that is handed the machine (\<^verbatim>\<open>this\<close>) can read of it: its plain
  fields.
\<close>

record machineView =
  mv_stateName :: jsval
  mv_stateParams :: jsval
  mv_visitedStates :: "string list"
  mv_progress :: jsval
  mv_requestedTransition :: jsval
  mv_entityConfig :: "entityConfig option"
  mv_lastFrameInfo :: "frameInfo option"

text \<open>
  The third parameter of a resolver is typed \<^verbatim>\<open>any\<close> (\<^verbatim>\<open>context: any\<close> in
  \<^verbatim>\<open>TransitionResolvable\<close>): what arrives there is a plain value or the state machine.
\<close>

datatype anyContext = Machine machineView | Plain jsval

text \<open>
  An entry of the transition table, as \<^verbatim>\<open>update\<close> tells the entries apart: a function,
  or any other value. A function may throw.
\<close>

datatype transitionResolvable =
    TransitionFunction "jsval \<Rightarrow> jsval \<Rightarrow> anyContext \<Rightarrow> error + jsval"
  | TransitionValue jsval

text \<open>A state: an entity, or a function of the state parameters and the machine.\<close>

datatype 'c stateResolvable = StateEntity 'c | StateFactory "jsval \<Rightarrow> machineView \<Rightarrow> 'c"

text \<open>An option that is a value or a function without arguments that gives the value.\<close>

datatype 'a orFunction = Value 'a | Function "unit \<Rightarrow> 'a"

fun resolveOption :: "'a orFunction \<Rightarrow> 'a" where
  "resolveOption (Value v) = v"
| "resolveOption (Function g) = g ()"

text \<open>The arguments of one \<^verbatim>\<open>emit("stateChange", ...)\<close>.\<close>

record stateChange =
  sc_nextStateName :: string
  sc_nextStateParams :: jsval
  sc_previousStateName :: jsval
  sc_previousStateParams :: jsval

text \<open>
  The fields of the machine. \<open>sm_emitted\<close> is instrumentation: the state changes emitted,
  oldest first. \<^verbatim>\<open>visitedStates\<close> is \<^verbatim>\<open>undefined\<close> until \<open>setup\<close> assigns the empty
  array, and is not read before; it starts as the empty list here. \<open>sm_state\<close> is \<open>None\<close>
  for \<^verbatim>\<open>null\<close> and \<^verbatim>\<open>undefined\<close>. When the state of the current name is an entity of
  the table, \<^verbatim>\<open>this.state\<close> is that very object: \<open>setState\<close> writes both. The child of
  a machine is logged as child \<open>0\<close>.
\<close>

record 'x stateMachine = entity +
  sm_states :: "string \<rightharpoonup> 'x entity_scheme stateResolvable"
  sm_transitions :: "string \<rightharpoonup> transitionResolvable"
  sm_startingState :: "string orFunction"
  sm_endingStates :: "string list"
  sm_startingStateParams :: "jsval orFunction"
  sm_startingProgress :: jsval
  sm_visitedStates :: "string list"
  sm_progress :: jsval
  sm_state :: "'x entity_scheme option"
  sm_stateName :: jsval
  sm_stateParams :: jsval
  sm_emitted :: "stateChange list"

text \<open>
  The options of the constructor, each of which may be missing; \<^verbatim>\<open>util.setupOptions\<close>
  (not among the sources) is called with the defaults \<^verbatim>\<open>"start"\<close>, \<^verbatim>\<open>["end"]\<close>, \<^verbatim>\<open>{}\<close>
  and \<^verbatim>\<open>{}\<close>.
\<close>

record stateMachineOptions =
  opt_startingState :: "string orFunction option"
  opt_endingStates :: "string list option"
  opt_startingStateParams :: "jsval orFunction option"
  opt_startingProgress :: "jsval option"

definition defaultOptions :: stateMachineOptions where
  "defaultOptions =
     \<lparr> opt_startingState = None, opt_endingStates = None, opt_startingStateParams = None,
       opt_startingProgress = None \<rparr>"

definition StateMachine_new ::
  "(string \<rightharpoonup> 'x entity_scheme stateResolvable) \<Rightarrow> (string \<rightharpoonup> transitionResolvable) \<Rightarrow>
   stateMachineOptions \<Rightarrow> 'x stateMachine" where
  "StateMachine_new states transitions options =
     entity.extend Entity_new
       (stateMachine.fields states transitions
          (case opt_startingState options of None \<Rightarrow> Value ''start'' | Some v \<Rightarrow> v)
          (case opt_endingStates options of None \<Rightarrow> [''end''] | Some v \<Rightarrow> v)
          (case opt_startingStateParams options of None \<Rightarrow> Value (JObj []) | Some v \<Rightarrow> v)
          (case opt_startingProgress options of None \<Rightarrow> JObj [] | Some v \<Rightarrow> v)
          [] JUndefined None JUndefined JUndefined [])"

definition machineViewOf :: "('x, 'b) stateMachine_scheme \<Rightarrow> machineView" where
  "machineViewOf m =
     \<lparr> mv_stateName = sm_stateName m, mv_stateParams = sm_stateParams m,
       mv_visitedStates = sm_visitedStates m, mv_progress = sm_progress m,
       mv_requestedTransition = requestedTransition m, mv_entityConfig = entityConfig m,
       mv_lastFrameInfo = lastFrameInfo m \<rparr>"

definition setState ::
  "string \<Rightarrow> 'x entity_scheme \<Rightarrow> ('x, 'b) stateMachine_scheme \<Rightarrow> ('x, 'b) stateMachine_scheme" where
  "setState name e m =
     m\<lparr>sm_state := Some e,
       sm_states :=
         (case sm_states m name of
            Some (StateEntity _) \<Rightarrow> (sm_states m)(name \<mapsto> StateEntity e)
          | _ \<Rightarrow> sm_states m)\<rparr>"

text \<open>
  \<^verbatim>\<open>_changeState(nextStateName, nextStateParams)\<close>. An ending state ends the call at
  once. Otherwise the current state is torn down, the next one is looked up, made if it
  is a function, and set up; then the name, the parameters and the visited states are
  written and the change is emitted.
\<close>

definition StateMachine_changeState ::
  "'x entity_scheme hooks \<Rightarrow> string \<Rightarrow> jsval \<Rightarrow> ('x, 'b) stateMachine_scheme \<Rightarrow>
   error + ('x, 'b) stateMachine_scheme" where
  "StateMachine_changeState H nextStateName nextStateParams m =
     (if nextStateName \<in> set (sm_endingStates m) then
        Inr (m\<lparr>requestedTransition := JStr nextStateName,
               sm_visitedStates := sm_visitedStates m @ [nextStateName]\<rparr>)
      else
        (let m1 = (case sm_state m of
                     None \<Rightarrow> m
                   | Some e \<Rightarrow>
                       logCall (TeardownCall 0)
                         (setState (toPropertyKey (sm_stateName m))
                            (Entity_teardown H (lastFrameInfo m) e) m))
         in case sm_states m1 nextStateName of
              None \<Rightarrow> Inl (Error (''Cannot find state '' @ nextStateName))
            | Some nextStateDescriptor \<Rightarrow>
                (let e = (case nextStateDescriptor of
                            StateFactory g \<Rightarrow> g nextStateParams (machineViewOf m1)
                          | StateEntity d \<Rightarrow> d);
                     m2 = logCall (SetupCall 0)
                            (setState nextStateName
                               (Entity_setup H (lastFrameInfo m1) (entityConfig m1) e) m1);
                     previousStateName = sm_stateName m2;
                     previousStateParams = sm_stateParams m2
                 in Inr (m2\<lparr>sm_stateName := JStr nextStateName,
                            sm_stateParams := nextStateParams,
                            sm_visitedStates := sm_visitedStates m2 @ [nextStateName],
                            sm_emitted := sm_emitted m2 @
                              [\<lparr>sc_nextStateName = nextStateName,
                                sc_nextStateParams = nextStateParams,
                                sc_previousStateName = previousStateName,
                                sc_previousStateParams = previousStateParams\<rparr>]\<rparr>))))"

text \<open>\<^verbatim>\<open>util.cloneData\<close> copies a value; values are immutable here.\<close>

definition StateMachine_setup ::
  "'x entity_scheme hooks \<Rightarrow> frameInfo option \<Rightarrow> entityConfig option \<Rightarrow>
   ('x, 'b) stateMachine_scheme \<Rightarrow> error + ('x, 'b) stateMachine_scheme" where
  "StateMachine_setup H fi c m =
     (let m1 = (Entity_setup baseHooks fi c m)
                 \<lparr>sm_visitedStates := [], sm_progress := sm_startingProgress m\<rparr>;
          startingState = resolveOption (sm_startingState m1);
          startingStateParams = resolveOption (sm_startingStateParams m1)
      in StateMachine_changeState H startingState startingStateParams m1)"

text \<open>
  The three steps of \<^verbatim>\<open>update\<close> once the state has requested a transition: unpack the
  transition; find the descriptor of the next state; unpack that descriptor. A requested
  transition is truthy, so it is not \<^verbatim>\<open>null\<close> where \<^verbatim>\<open>typeof\<close> says \<^verbatim>\<open>"object"\<close>.
\<close>

fun unpackTransition :: "jsval \<Rightarrow> jsval \<times> jsval" where
  "unpackTransition (JObj ps) =
     ((case map_of ps ''name'' of None \<Rightarrow> JUndefined | Some v \<Rightarrow> v),
      (case map_of ps ''params'' of None \<Rightarrow> JUndefined | Some v \<Rightarrow> v))"
| "unpackTransition requested = (requested, JUndefined)"

fun inStates :: "('x, 'b) stateMachine_scheme \<Rightarrow> jsval \<Rightarrow> bool" where
  "inStates m (JStr name) = (sm_states m name \<noteq> None)"
| "inStates m v = False"

definition nextStateDescriptorOf ::
  "('x, 'b) stateMachine_scheme \<Rightarrow> jsval \<Rightarrow> jsval \<Rightarrow> jsval \<Rightarrow> error + jsval" where
  "nextStateDescriptorOf m requested requestedTransitionName requestedTransitionParams =
     (let stateName = toPropertyKey (sm_stateName m)
      in if inStates m requestedTransitionName \<and> sm_transitions m stateName = None then
           Inr requested
         else
           (case sm_transitions m stateName of
              None \<Rightarrow> Inl (Error (''Cannot find transition for state '' @ stateName))
            | Some (TransitionFunction transitionDescriptor) \<Rightarrow>
                transitionDescriptor requestedTransitionName requestedTransitionParams
                  (Machine (machineViewOf m))
            | Some (TransitionValue (JStr transitionDescriptor)) \<Rightarrow> Inr (JStr transitionDescriptor)
            | Some (TransitionValue _) \<Rightarrow> Inl (Error ''Cannot decode transition descriptor'')))"

fun unpackNextState :: "jsval \<Rightarrow> jsval \<Rightarrow> error + string \<times> jsval" where
  "unpackNextState JNull requested =
     Inl (TypeError ''Cannot read properties of null (reading name)'')"
| "unpackNextState (JObj ps) requested =
     (case map_of ps ''name'' of
        Some (JStr name) \<Rightarrow>
          Inr (name, (case map_of ps ''params'' of None \<Rightarrow> JUndefined | Some v \<Rightarrow> v))
      | _ \<Rightarrow> Inl (Error ''Cannot decode state descriptor''))"
| "unpackNextState (JStr name) requested =
     (case getProp requested ''params'' of
        Inl err \<Rightarrow> Inl err
      | Inr params \<Rightarrow> Inr (name, params))"
| "unpackNextState nextStateDescriptor requested =
     Inl (Error ''Cannot decode state descriptor'')"

definition StateMachine_update ::
  "'x entity_scheme hooks \<Rightarrow> frameInfo option \<Rightarrow> ('x, 'b) stateMachine_scheme \<Rightarrow>
   error + ('x, 'b) stateMachine_scheme" where
  "StateMachine_update H fi m =
     (let m1 = Entity_update baseHooks fi m
      in case sm_state m1 of
           None \<Rightarrow> Inr m1
         | Some e \<Rightarrow>
             (let e1 = Entity_update H fi e;
                  m2 = logCall (UpdateCall 0) (setState (toPropertyKey (sm_stateName m1)) e1 m1);
                  requested = requestedTransition e1
              in if truthy requested then
                   (case unpackTransition requested of
                      (requestedTransitionName, requestedTransitionParams) \<Rightarrow>
                        (case nextStateDescriptorOf m2 requested
                                requestedTransitionName requestedTransitionParams of
                           Inl err \<Rightarrow> Inl err
                         | Inr nextStateDescriptor \<Rightarrow>
                             (case unpackNextState nextStateDescriptor requested of
                                Inl err \<Rightarrow> Inl err
                              | Inr (nextStateName, nextStateParams) \<Rightarrow>
                                  StateMachine_changeState H nextStateName nextStateParams m2)))
                 else Inr m2))"

definition StateMachine_teardown ::
  "'x entity_scheme hooks \<Rightarrow> frameInfo option \<Rightarrow> ('x, 'b) stateMachine_scheme \<Rightarrow>
   ('x, 'b) stateMachine_scheme" where
  "StateMachine_teardown H fi m =
     Entity_teardown baseHooks fi
       (case sm_state m of
          None \<Rightarrow> m
        | Some e \<Rightarrow>
            (logCall (TeardownCall 0)
               (setState (toPropertyKey (sm_stateName m)) (Entity_teardown H fi e) m))
              \<lparr>sm_state := None, sm_stateName := JNull\<rparr>)"

section \<open>makeTransitionTable\<close>

text \<open>
  An entry of the flat table: a descriptor, or a function of the four arguments the
  resolver itself takes.
\<close>

datatype tableEntry =
    EntryValue jsval
  | EntryFunction "jsval \<Rightarrow> jsval \<Rightarrow> anyContext \<Rightarrow> jsval \<Rightarrow> error + jsval"

definition makeTransitionTable ::
  "(string \<rightharpoonup> tableEntry) \<Rightarrow> jsval \<Rightarrow> jsval \<Rightarrow> anyContext \<Rightarrow> jsval \<Rightarrow> error + jsval" where
  "makeTransitionTable table requestedTransitionName requestedTransitionParams
       previousStateName previousStateParams =
     (case table (toPropertyKey requestedTransitionName) of
        Some (EntryFunction transitionDescriptor) \<Rightarrow>
          transitionDescriptor requestedTransitionName requestedTransitionParams
            previousStateName previousStateParams
      | Some (EntryValue transitionDescriptor) \<Rightarrow> Inr transitionDescriptor
      | None \<Rightarrow> Inl (Error (''Cannot find state '' @ toPropertyKey requestedTransitionName)))"

text \<open>
  A function of four parameters standing in the transition table: \<^verbatim>\<open>update\<close> calls it
  with three arguments, and the fourth parameter is \<^verbatim>\<open>undefined\<close>.
\<close>

definition asTransition ::
  "(jsval \<Rightarrow> jsval \<Rightarrow> anyContext \<Rightarrow> jsval \<Rightarrow> error + jsval) \<Rightarrow> transitionResolvable" where
  "asTransition f = TransitionFunction (\<lambda>name params ctx. f name params ctx JUndefined)"

section \<open>Example machines\<close>

text \<open>
  The machine with the states \<^verbatim>\<open>start\<close> and \<^verbatim>\<open>middle\<close>, the ending state \<^verbatim>\<open>end\<close> and
  the table \<^verbatim>\<open>{ start: { win: "middle" }, middle: { finish: "end" } }\<close> built with
  \<^verbatim>\<open>makeTransitionTable\<close>; the state \<^verbatim>\<open>start\<close> requests \<^verbatim>\<open>win\<close> at its first update,
  the state \<^verbatim>\<open>middle\<close> requests \<^verbatim>\<open>finish\<close> at its first update.
\<close>

definition machineExample :: "jsval list stateMachine" where
  "machineExample =
     StateMachine_new
       [''start'' \<mapsto> StateEntity (scripted [JStr ''win'']),
        ''middle'' \<mapsto> StateEntity (scripted [JStr ''finish''])]
       [''start'' \<mapsto> asTransition (makeTransitionTable [''win'' \<mapsto> EntryValue (JStr ''middle'')]),
        ''middle'' \<mapsto> asTransition (makeTransitionTable [''finish'' \<mapsto> EntryValue (JStr ''end'')])]
       defaultOptions"

definition machineExample1 :: "jsval list stateMachine" where
  "machineExample1 = projr (StateMachine_setup scriptedHooks (Some frame0) (Some []) machineExample)"

definition machineExample2 :: "jsval list stateMachine" where
  "machineExample2 = projr (StateMachine_update scriptedHooks (Some frame0) machineExample1)"

definition machineExample3 :: "jsval list stateMachine" where
  "machineExample3 = projr (StateMachine_update scriptedHooks (Some frame0) machineExample2)"

text \<open>
  A function for a flat table that tells by its result what its third argument is: the
  name of a state, or the machine.
\<close>

fun probe :: "jsval \<Rightarrow> jsval \<Rightarrow> anyContext \<Rightarrow> jsval \<Rightarrow> error + jsval" where
  "probe name params (Plain previousStateName) previousStateParams = Inr (JStr ''byName'')"
| "probe name params (Machine machine) previousStateParams = Inr (JStr ''byMachine'')"

definition probeExample :: "jsval list stateMachine" where
  "probeExample =
     projr (StateMachine_setup scriptedHooks (Some frame0) (Some [])
       (StateMachine_new
          [''start'' \<mapsto> StateEntity (scripted [JStr ''win'']),
           ''byName'' \<mapsto> StateEntity (scripted []),
           ''byMachine'' \<mapsto> StateEntity (scripted [])]
          [''start'' \<mapsto> asTransition (makeTransitionTable [''win'' \<mapsto> EntryFunction probe])]
          defaultOptions))"

definition probeChild :: "jsval list entity_scheme" where
  "probeChild = Entity_setup scriptedHooks (Some frame0) (Some []) (scripted [JStr ''win''])"

section \<open>EntitySequence: descriptors and further examples\<close>






section \<open>Lifecycle of the base class\<close>

lemma isSetup_console_error [simp]: "isSetup (console_error m e) = isSetup e"
  by (simp add: console_error_def)

lemma isSetup_Entity_setup:
  "hooksKeepIsSetup H \<Longrightarrow> isSetup (Entity_setup H fi c e)"
  by (simp add: Entity_setup_def hooksKeepIsSetup_def Let_def)

lemma isSetup_Entity_update:
  "hooksKeepIsSetup H \<Longrightarrow> isSetup (Entity_update H fi e) = isSetup e"
  by (simp add: Entity_update_def hooksKeepIsSetup_def Let_def)

lemma isSetup_Entity_onSignal:
  "hooksKeepIsSetup H \<Longrightarrow> isSetup (Entity_onSignal H fi s d e) = isSetup e"
  by (simp add: Entity_onSignal_def hooksKeepIsSetup_def Let_def)

lemma isSetup_Entity_teardown: "\<not> isSetup (Entity_teardown H fi e)"
  by (simp add: Entity_teardown_def Let_def)

lemma isSetup_Entity_drive:
  "hooksKeepIsSetup H \<Longrightarrow> isSetup (Entity_drive H cs e) = isSetup e"
proof (induction cs arbitrary: e)
  case Nil
  show ?case by simp
next
  case (Cons c cs)
  show ?case
  proof (cases c)
    case (DoUpdate fi)
    with Cons show ?thesis by (simp add: isSetup_Entity_update)
  next
    case (DoSignal fi s d)
    with Cons show ?thesis by (simp add: isSetup_Entity_onSignal)
  qed
qed

lemma hooksKeepIsSetup_listeningHooks: "hooksKeepIsSetup listeningHooks"
  by (simp add: hooksKeepIsSetup_def listeningHooks_def Entity_on_def)

lemma eventListeners_Entity_off_all: "eventListeners (Entity_off None None None e) = []"
  by (simp add: Entity_off_def)

text \<open>
  C7. A freshly constructed entity is not set up. For a class whose hooks leave
  \<open>isSetup\<close> alone, the flag is true when \<open>setup\<close> returns and stays true through
  every sequence of updates and signals that follows; after \<open>teardown\<close> returns it is
  false, whatever the entity went through before.
\<close>

theorem C7_isSetup_lifecycle:
  assumes "hooksKeepIsSetup H"
  shows "\<not> isSetup Entity_new \<and>
     isSetup (Entity_setup H fi c e) \<and>
     isSetup (Entity_drive H cs (Entity_setup H fi c e)) \<and>
     \<not> isSetup (Entity_teardown H fi' (Entity_drive H cs (Entity_setup H fi c e)))"
  using assms
  by (simp add: Entity_new_def isSetup_Entity_setup isSetup_Entity_drive
      isSetup_Entity_teardown)

theorem C7_isSetup_lifecycle_witness:
  "hooksKeepIsSetup (listeningHooks :: unit entity_scheme hooks) \<and>
   \<not> isSetup Entity_new \<and>
   isSetup (Entity_setup listeningHooks (Some frame0) (Some []) Entity_new) \<and>
   isSetup (Entity_drive listeningHooks [DoUpdate (Some frame0), DoSignal (Some frame0) ''pause'' JNull]
      (Entity_setup listeningHooks (Some frame0) (Some []) Entity_new)) \<and>
   \<not> isSetup (Entity_teardown listeningHooks (Some frame0)
      (Entity_drive listeningHooks [DoUpdate (Some frame0), DoSignal (Some frame0) ''pause'' JNull]
        (Entity_setup listeningHooks (Some frame0) (Some []) Entity_new)))"
  using C7_isSetup_lifecycle [OF hooksKeepIsSetup_listeningHooks,
      of "Some frame0" "Some []" Entity_new
         "[DoUpdate (Some frame0), DoSignal (Some frame0) ''pause'' JNull]" "Some frame0"]
    hooksKeepIsSetup_listeningHooks
  by simp

text \<open>
  C8. When \<open>teardown\<close> returns, the registry of listeners is empty: no listener, however
  and whenever it was registered, is left in it. Nothing is asked of the class: its
  \<open>_teardown\<close> may unsubscribe nothing at all, or even subscribe.
\<close>

theorem C8_teardown_releases_listeners:
  "eventListeners (Entity_teardown H fi e) = [] \<and>
   l \<notin> set (eventListeners (Entity_teardown H fi e))"
  by (simp add: Entity_teardown_def Let_def eventListeners_Entity_off_all)


section \<open>ParallelEntity: one pass of update\<close>

declare ParallelEntity_update_loop.simps [simp del]

lemma list_update_triv:
  "i < length xs \<Longrightarrow> xs ! i = v \<Longrightarrow> xs = xs[i := v]"
  "\<not> i < length xs \<Longrightarrow> xs = xs[i := v]"
  by (simp_all add: list_update_same_conv [THEN iffD2, symmetric] list_update_beyond)

lemma update_child_entities:
  "ParallelEntity_update_child H fi i p = Inr p1 \<Longrightarrow> i < length (pe_entities p) \<Longrightarrow>
   pe_entities p1 =
     (pe_entities p)[i := childAfterUpdate H fi (js_get False (pe_entityIsActive p) i) (pe_entities p ! i)]"
  by (auto simp: ParallelEntity_update_child_def logCall_def Let_def childAfterUpdate_def
      split: option.splits if_splits intro: list_update_triv)

lemma update_child_active:
  "ParallelEntity_update_child H fi i p = Inr p1 \<Longrightarrow>
   pe_entityIsActive p1 =
     (pe_entityIsActive p)[i := js_get False (pe_entityIsActive p) i \<and>
                                \<not> childCompletes H fi (pe_entities p ! i)]"
  by (auto simp: ParallelEntity_update_child_def logCall_def Let_def childCompletes_def
      js_get_def js_set_def
      split: option.splits if_splits intro: list_update_triv)

lemma update_child_calls:
  "ParallelEntity_update_child H fi i p = Inr p1 \<Longrightarrow>
   childCalls p1 = childCalls p @
     callsOnChild H fi i (js_get False (pe_entityIsActive p) i) (pe_entities p ! i)"
  by (auto simp: ParallelEntity_update_child_def logCall_def Let_def childCompletes_def
      callsOnChild_def
      split: option.splits if_splits)

lemma update_child_rest:
  "ParallelEntity_update_child H fi i p = Inr p1 \<Longrightarrow>
   requestedTransition p1 = requestedTransition p \<and> pe_autoTransition p1 = pe_autoTransition p \<and>
   isSetup p1 = isSetup p \<and> pe_entityConfigs p1 = pe_entityConfigs p"
  by (auto simp: ParallelEntity_update_child_def logCall_def Let_def
      split: option.splits if_splits)

lemma update_child_total:
  "(js_get False (pe_entityIsActive p) i \<Longrightarrow> pe_entities p ! i \<noteq> None) \<Longrightarrow>
   \<exists>p1. ParallelEntity_update_child H fi i p = Inr p1"
  by (auto simp: ParallelEntity_update_child_def logCall_def Let_def
      split: option.splits if_splits)

lemma update_loop_step:
  "i < length (pe_entities p) \<Longrightarrow> ParallelEntity_update_child H fi i p = Inr p1 \<Longrightarrow>
   ParallelEntity_update_loop H fi i p = ParallelEntity_update_loop H fi (Suc i) p1"
  by (subst ParallelEntity_update_loop.simps) simp

lemma update_loop_stop:
  "\<not> i < length (pe_entities p) \<Longrightarrow> ParallelEntity_update_loop H fi i p = Inr p"
  by (subst ParallelEntity_update_loop.simps) simp

lemma update_loop_Inr:
  "ParallelEntity_update_loop H fi i p = Inr p' \<Longrightarrow> i < length (pe_entities p) \<Longrightarrow>
   \<exists>p1. ParallelEntity_update_child H fi i p = Inr p1 \<and>
         ParallelEntity_update_loop H fi (Suc i) p1 = Inr p'"
  by (subst (asm) ParallelEntity_update_loop.simps) (auto split: sum.splits)

lemma update_loop_entities:
  "ParallelEntity_update_loop H fi i p = Inr p' \<Longrightarrow>
   length (pe_entities p') = length (pe_entities p) \<and>
   (\<forall>j < length (pe_entities p). pe_entities p' ! j =
     (if j < i then pe_entities p ! j
      else childAfterUpdate H fi (js_get False (pe_entityIsActive p) j) (pe_entities p ! j)))"
proof (induction "length (pe_entities p) - i" arbitrary: i p)
  case 0
  then show ?case by (simp add: update_loop_stop)
next
  case (Suc k)
  then have lt: "i < length (pe_entities p)" by simp
  from update_loop_Inr [OF Suc.prems lt] obtain p1 where
    b: "ParallelEntity_update_child H fi i p = Inr p1" and
    l: "ParallelEntity_update_loop H fi (Suc i) p1 = Inr p'" by blast
  note e1 = update_child_entities [OF b lt]
  note a1 = update_child_active [OF b]
  have len: "length (pe_entities p1) = length (pe_entities p)" by (simp add: e1)
  have "k = length (pe_entities p1) - Suc i" using Suc.hyps(2) len by simp
  from Suc.hyps(1) [OF this l] len
  have IH: "length (pe_entities p') = length (pe_entities p)"
     "\<And>j. j < length (pe_entities p) \<Longrightarrow> pe_entities p' ! j =
       (if j < Suc i then pe_entities p1 ! j
        else childAfterUpdate H fi (js_get False (pe_entityIsActive p1) j) (pe_entities p1 ! j))"
    by simp_all
  show ?case
  proof (intro conjI allI impI)
    show "length (pe_entities p') = length (pe_entities p)" by (rule IH(1))
  next
    fix j assume j: "j < length (pe_entities p)"
    show "pe_entities p' ! j =
     (if j < i then pe_entities p ! j
      else childAfterUpdate H fi (js_get False (pe_entityIsActive p) j) (pe_entities p ! j))"
      using IH(2) [OF j] j lt
      by (auto simp: e1 a1 js_get_def nth_list_update less_Suc_eq)
  qed
qed

lemma update_loop_active:
  "ParallelEntity_update_loop H fi i p = Inr p' \<Longrightarrow>
   length (pe_entityIsActive p') = length (pe_entityIsActive p) \<and>
   (\<forall>j. js_get False (pe_entityIsActive p') j =
     (if j < i \<or> length (pe_entities p) \<le> j then js_get False (pe_entityIsActive p) j
      else js_get False (pe_entityIsActive p) j \<and> \<not> childCompletes H fi (pe_entities p ! j)))"
proof (induction "length (pe_entities p) - i" arbitrary: i p)
  case 0
  then show ?case by (auto simp: update_loop_stop)
next
  case (Suc k)
  then have lt: "i < length (pe_entities p)" by simp
  from update_loop_Inr [OF Suc.prems lt] obtain p1 where
    b: "ParallelEntity_update_child H fi i p = Inr p1" and
    l: "ParallelEntity_update_loop H fi (Suc i) p1 = Inr p'" by blast
  note e1 = update_child_entities [OF b lt]
  note a1 = update_child_active [OF b]
  have len: "length (pe_entities p1) = length (pe_entities p)" by (simp add: e1)
  have "k = length (pe_entities p1) - Suc i" using Suc.hyps(2) len by simp
  from Suc.hyps(1) [OF this l] len
  have IH: "length (pe_entityIsActive p') = length (pe_entityIsActive p1)"
     "\<And>j. js_get False (pe_entityIsActive p') j =
       (if j < Suc i \<or> length (pe_entities p) \<le> j then js_get False (pe_entityIsActive p1) j
        else js_get False (pe_entityIsActive p1) j \<and> \<not> childCompletes H fi (pe_entities p1 ! j))"
    by simp_all
  show ?case
  proof (intro conjI allI)
    show "length (pe_entityIsActive p') = length (pe_entityIsActive p)"
      using IH(1) by (simp add: a1)
  next
    fix j
    show "js_get False (pe_entityIsActive p') j =
     (if j < i \<or> length (pe_entities p) \<le> j then js_get False (pe_entityIsActive p) j
      else js_get False (pe_entityIsActive p) j \<and> \<not> childCompletes H fi (pe_entities p ! j))"
      using IH(2) [of j] lt
      by (auto simp: e1 a1 js_get_def nth_list_update less_Suc_eq)
  qed
qed

lemma update_loop_calls:
  "ParallelEntity_update_loop H fi i p = Inr p' \<Longrightarrow>
   childCalls p' = childCalls p @
     concat (map (\<lambda>j. callsOnChild H fi j (js_get False (pe_entityIsActive p) j) (pe_entities p ! j))
               [i..<length (pe_entities p)])"
proof (induction "length (pe_entities p) - i" arbitrary: i p)
  case 0
  then show ?case by (simp add: update_loop_stop)
next
  case (Suc k)
  then have lt: "i < length (pe_entities p)" by simp
  from update_loop_Inr [OF Suc.prems lt] obtain p1 where
    b: "ParallelEntity_update_child H fi i p = Inr p1" and
    l: "ParallelEntity_update_loop H fi (Suc i) p1 = Inr p'" by blast
  note e1 = update_child_entities [OF b lt]
  note a1 = update_child_active [OF b]
  note c1 = update_child_calls [OF b]
  have len: "length (pe_entities p1) = length (pe_entities p)" by (simp add: e1)
  have "k = length (pe_entities p1) - Suc i" using Suc.hyps(2) len by simp
  from Suc.hyps(1) [OF this l] len
  have IH: "childCalls p' = childCalls p1 @
     concat (map (\<lambda>j. callsOnChild H fi j (js_get False (pe_entityIsActive p1) j) (pe_entities p1 ! j))
               [Suc i..<length (pe_entities p)])"
    by simp
  have same: "map (\<lambda>j. callsOnChild H fi j (js_get False (pe_entityIsActive p1) j) (pe_entities p1 ! j))
               [Suc i..<length (pe_entities p)] =
     map (\<lambda>j. callsOnChild H fi j (js_get False (pe_entityIsActive p) j) (pe_entities p ! j))
               [Suc i..<length (pe_entities p)]"
    by (rule map_cong) (auto simp: e1 a1 js_get_def)
  have upt: "[i..<length (pe_entities p)] = i # [Suc i..<length (pe_entities p)]"
    using lt by (simp add: upt_conv_Cons)
  show ?case
    unfolding IH same c1 upt by simp
qed

lemma update_loop_rest:
  "ParallelEntity_update_loop H fi i p = Inr p' \<Longrightarrow>
   requestedTransition p' = requestedTransition p \<and> pe_autoTransition p' = pe_autoTransition p \<and>
   isSetup p' = isSetup p \<and> pe_entityConfigs p' = pe_entityConfigs p"
proof (induction "length (pe_entities p) - i" arbitrary: i p)
  case 0
  then show ?case by (simp add: update_loop_stop)
next
  case (Suc k)
  then have lt: "i < length (pe_entities p)" by simp
  from update_loop_Inr [OF Suc.prems lt] obtain p1 where
    b: "ParallelEntity_update_child H fi i p = Inr p1" and
    l: "ParallelEntity_update_loop H fi (Suc i) p1 = Inr p'" by blast
  note e1 = update_child_entities [OF b lt]
  have len: "length (pe_entities p1) = length (pe_entities p)" by (simp add: e1)
  have "k = length (pe_entities p1) - Suc i" using Suc.hyps(2) len by simp
  from Suc.hyps(1) [OF this l] update_child_rest [OF b]
  show ?case by simp
qed

lemma update_loop_total:
  "(\<And>j. i \<le> j \<Longrightarrow> j < length (pe_entities p) \<Longrightarrow> js_get False (pe_entityIsActive p) j \<Longrightarrow>
        pe_entities p ! j \<noteq> None) \<Longrightarrow>
   \<exists>p'. ParallelEntity_update_loop H fi i p = Inr p'"
proof (induction "length (pe_entities p) - i" arbitrary: i p)
  case 0
  then show ?case by (simp add: update_loop_stop)
next
  case (Suc k)
  then have lt: "i < length (pe_entities p)" by simp
  from update_child_total [of p i H fi] Suc.prems lt obtain p1 where
    b: "ParallelEntity_update_child H fi i p = Inr p1" by auto
  note e1 = update_child_entities [OF b lt]
  note a1 = update_child_active [OF b]
  have len: "length (pe_entities p1) = length (pe_entities p)" by (simp add: e1)
  have k: "k = length (pe_entities p1) - Suc i" using Suc.hyps(2) len by simp
  have "\<exists>p'. ParallelEntity_update_loop H fi (Suc i) p1 = Inr p'"
  proof (rule Suc.hyps(1) [OF k])
    fix j assume "Suc i \<le> j" "j < length (pe_entities p1)" "js_get False (pe_entityIsActive p1) j"
    then show "pe_entities p1 ! j \<noteq> None"
      using Suc.prems [of j] by (auto simp: e1 a1 js_get_def len split: if_splits)
  qed
  then show ?case by (simp add: update_loop_step [OF lt b])
qed

lemma Entity_update_base_fields:
  "pe_entities (Entity_update baseHooks fi p) = pe_entities p"
  "pe_entityIsActive (Entity_update baseHooks fi p) = pe_entityIsActive p"
  "pe_autoTransition (Entity_update baseHooks fi p) = pe_autoTransition p"
  "requestedTransition (Entity_update baseHooks fi p) = requestedTransition p"
  "childCalls (Entity_update baseHooks fi p) = childCalls p"
  by (simp_all add: Entity_update_def baseHooks_def console_error_def Let_def)

text \<open>
  C4. One pass of \<open>update\<close> over a \<^verbatim>\<open>ParallelEntity\<close> whose active children are
  objects returns normally. The list of children keeps its length. Each active child is
  updated; if it then requests a transition it is torn down at once and its flag is
  cleared, otherwise it stays as updated and active; inactive children are left alone.
  The calls reach the children in list order, the teardown of a child before the update
  of the next. With \<^verbatim>\<open>autoTransition\<close> the transition of the parent is set to
  \<^verbatim>\<open>true\<close> exactly when no flag is left set, and is otherwise what it was.
\<close>

theorem C4_ParallelEntity_update:
  assumes "activeChildrenPresent p"
  shows "\<exists>p'. ParallelEntity_update H fi p = Inr p' \<and>
     length (pe_entities p') = length (pe_entities p) \<and>
     (\<forall>j < length (pe_entities p).
        pe_entities p' ! j =
          childAfterUpdate H fi (js_get False (pe_entityIsActive p) j) (pe_entities p ! j) \<and>
        js_get False (pe_entityIsActive p') j =
          (js_get False (pe_entityIsActive p) j \<and> \<not> childCompletes H fi (pe_entities p ! j))) \<and>
     childCalls p' = childCalls p @
       concat (map (\<lambda>j. callsOnChild H fi j (js_get False (pe_entityIsActive p) j) (pe_entities p ! j))
                 [0..<length (pe_entities p)]) \<and>
     requestedTransition p' =
       (if pe_autoTransition p \<and> \<not> list_ex (\<lambda>a. a) (pe_entityIsActive p')
        then JBool True else requestedTransition p)"
proof -
  let ?q = "Entity_update baseHooks fi p"
  have "\<exists>p1. ParallelEntity_update_loop H fi 0 ?q = Inr p1"
  proof (rule update_loop_total)
    fix j assume "j < length (pe_entities ?q)" "js_get False (pe_entityIsActive ?q) j"
    with assms show "pe_entities ?q ! j \<noteq> None"
      by (simp add: activeChildrenPresent_def Entity_update_base_fields list_all_iff)
  qed
  then obtain p1 where l: "ParallelEntity_update_loop H fi 0 ?q = Inr p1" by blast
  note E = update_loop_entities [OF l] and A = update_loop_active [OF l]
    and C = update_loop_calls [OF l] and R = update_loop_rest [OF l]
  let ?p' = "if pe_autoTransition p1 \<and> \<not> list_ex (\<lambda>a. a) (pe_entityIsActive p1)
             then p1\<lparr>requestedTransition := JBool True\<rparr> else p1"
  have u: "ParallelEntity_update H fi p = Inr ?p'"
    by (simp add: ParallelEntity_update_def l)
  have f: "pe_entities ?p' = pe_entities p1" "pe_entityIsActive ?p' = pe_entityIsActive p1"
    "childCalls ?p' = childCalls p1" by simp_all
  show ?thesis
  proof (intro exI conjI allI impI)
    show "ParallelEntity_update H fi p = Inr ?p'" by (rule u)
    show "length (pe_entities ?p') = length (pe_entities p)"
      using E by (simp add: Entity_update_base_fields)
    show "childCalls ?p' = childCalls p @
       concat (map (\<lambda>j. callsOnChild H fi j (js_get False (pe_entityIsActive p) j) (pe_entities p ! j))
                 [0..<length (pe_entities p)])"
      using C by (simp add: Entity_update_base_fields)
    show "requestedTransition ?p' =
       (if pe_autoTransition p \<and> \<not> list_ex (\<lambda>a. a) (pe_entityIsActive ?p')
        then JBool True else requestedTransition p)"
      using R by (simp add: Entity_update_base_fields)
  next
    fix j assume j: "j < length (pe_entities p)"
    then show "pe_entities ?p' ! j =
          childAfterUpdate H fi (js_get False (pe_entityIsActive p) j) (pe_entities p ! j)"
      using E unfolding f by (simp add: Entity_update_base_fields)
    show "js_get False (pe_entityIsActive ?p') j =
          (js_get False (pe_entityIsActive p) j \<and> \<not> childCompletes H fi (pe_entities p ! j))"
      using A j unfolding f by (simp add: Entity_update_base_fields)
  qed
qed


lemma parallelExample_eval:
  "pe_entityIsActive parallelExample = [True, True, True]"
  "map (map_option isSetup) (pe_entities parallelExample) = [Some True, Some True, Some True]"
  "childCalls parallelExample = [SetupCall 0, SetupCall 1, SetupCall 2]"
  "pe_autoTransition parallelExample"
  "requestedTransition parallelExample = JNull"
  by (simp_all add: parallelExample_def ParallelEntity_new_def ParallelEntity_empty_def
      ParallelEntity_addEntity_def Entity_new_def entity.extend_def parallelEntity.fields_def
      ParallelEntity_setup_def ParallelEntity_setup_child_def Entity_setup_def baseHooks_def
      scriptedHooks_def scripted_def logCall_def js_get_def js_set_def Let_def)

lemma parallelExample_update:
  "\<exists>p'. ParallelEntity_update scriptedHooks (Some frame0) parallelExample = Inr p' \<and>
     map (map_option isSetup) (pe_entities p') = [Some False, Some True, Some False] \<and>
     pe_entityIsActive p' = [False, True, False] \<and>
     childCalls p' = [SetupCall 0, SetupCall 1, SetupCall 2,
        UpdateCall 0, TeardownCall 0, UpdateCall 1, UpdateCall 2, TeardownCall 2] \<and>
     requestedTransition p' = JNull"
  by (simp add: parallelExample_def ParallelEntity_new_def ParallelEntity_empty_def
      ParallelEntity_addEntity_def Entity_new_def entity.extend_def parallelEntity.fields_def
      ParallelEntity_setup_def ParallelEntity_setup_child_def Entity_setup_def baseHooks_def
      scriptedHooks_def scripted_def logCall_def js_get_def js_set_def Let_def
      ParallelEntity_update_def ParallelEntity_update_child_def ParallelEntity_update_loop.simps
      Entity_update_def Entity_teardown_def Entity_off_def)


lemma parallelExample_children:
  "length (pe_entities parallelExample) = 3"
  "js_get False (pe_entityIsActive parallelExample) 0"
  "js_get False (pe_entityIsActive parallelExample) (Suc 0)"
  "js_get False (pe_entityIsActive parallelExample) (Suc (Suc 0))"
  "childCompletes scriptedHooks (Some frame0) (pe_entities parallelExample ! 0)"
  "\<not> childCompletes scriptedHooks (Some frame0) (pe_entities parallelExample ! Suc 0)"
  "childCompletes scriptedHooks (Some frame0) (pe_entities parallelExample ! Suc (Suc 0))"
  by (simp_all add: parallelExample_def ParallelEntity_new_def ParallelEntity_empty_def
      ParallelEntity_addEntity_def Entity_new_def entity.extend_def parallelEntity.fields_def
      ParallelEntity_setup_def ParallelEntity_setup_child_def Entity_setup_def baseHooks_def
      scriptedHooks_def scripted_def logCall_def js_get_def js_set_def Let_def
      childCompletes_def Entity_update_def)

lemma activeChildrenPresent_parallelExample: "activeChildrenPresent parallelExample"
  by (simp add: activeChildrenPresent_def parallelExample_def ParallelEntity_new_def
      ParallelEntity_empty_def
      ParallelEntity_addEntity_def Entity_new_def entity.extend_def parallelEntity.fields_def
      ParallelEntity_setup_def ParallelEntity_setup_child_def Entity_setup_def baseHooks_def
      scriptedHooks_def scripted_def logCall_def js_get_def js_set_def Let_def upt_rec)

theorem C4_ParallelEntity_update_witness:
  "activeChildrenPresent parallelExample \<and>
   (\<exists>p'. ParallelEntity_update scriptedHooks (Some frame0) parallelExample = Inr p' \<and>
      length (pe_entities p') = 3 \<and>
      \<not> js_get False (pe_entityIsActive p') 0 \<and>
      js_get False (pe_entityIsActive p') (Suc 0) \<and>
      \<not> js_get False (pe_entityIsActive p') (Suc (Suc 0)) \<and>
      childCalls p' = [SetupCall 0, SetupCall 1, SetupCall 2,
        UpdateCall 0, TeardownCall 0, UpdateCall 1, UpdateCall 2, TeardownCall 2])"
proof -
  note h = activeChildrenPresent_parallelExample
  from C4_ParallelEntity_update [OF h, of scriptedHooks "Some frame0"]
  obtain p' where
    u: "ParallelEntity_update scriptedHooks (Some frame0) parallelExample = Inr p'" and
    n: "length (pe_entities p') = length (pe_entities parallelExample)" and
    a: "\<forall>j < length (pe_entities parallelExample).
        js_get False (pe_entityIsActive p') j =
          (js_get False (pe_entityIsActive parallelExample) j \<and>
           \<not> childCompletes scriptedHooks (Some frame0) (pe_entities parallelExample ! j))" and
    c: "childCalls p' = childCalls parallelExample @
       concat (map (\<lambda>j. callsOnChild scriptedHooks (Some frame0) j
                 (js_get False (pe_entityIsActive parallelExample) j)
                 (pe_entities parallelExample ! j))
                 [0..<length (pe_entities parallelExample)])"
    by blast
  have "\<not> js_get False (pe_entityIsActive p') 0" "js_get False (pe_entityIsActive p') (Suc 0)"
    "\<not> js_get False (pe_entityIsActive p') (Suc (Suc 0))"
    using a [rule_format, of 0] a [rule_format, of "Suc 0"] a [rule_format, of "Suc (Suc 0)"]
      parallelExample_children
    by simp_all
  moreover have "childCalls p' = [SetupCall 0, SetupCall 1, SetupCall 2,
        UpdateCall 0, TeardownCall 0, UpdateCall 1, UpdateCall 2, TeardownCall 2]"
    unfolding c
    by (simp add: parallelExample_children parallelExample_eval callsOnChild_def upt_rec js_get_def)
  ultimately show ?thesis using h u n by (simp add: parallelExample_children)
qed


section \<open>FunctionalEntity: the children given to the constructor\<close>

declare ParallelEntity_setup_loop.simps [simp del]

lemma FunctionalEntity_addChildren_unset:
  "\<not> isSetup p \<Longrightarrow>
   \<exists>p'. FunctionalEntity_addChildren H cs p = Inr p' \<and>
        pe_entities p' = pe_entities p @ replicate (length cs) None \<and>
        pe_entityConfigs p' = pe_entityConfigs p @ map AcEntity cs \<and>
        \<not> isSetup p'"
proof (induction cs arbitrary: p)
  case Nil
  then show ?case by simp
next
  case (Cons c cs)
  let ?p1 = "p\<lparr>pe_entities := pe_entities p @ [None],
               pe_entityConfigs := pe_entityConfigs p @ [AcEntity c],
               pe_entityIsActive := pe_entityIsActive p @ [True]\<rparr>"
  have a: "ParallelEntity_addEntity H None (AcEntity c) p = Inr ?p1"
    using Cons.prems by (simp add: ParallelEntity_addEntity_def Let_def)
  have "\<not> isSetup ?p1" using Cons.prems by simp
  from Cons.IH [OF this] show ?case
    by (auto simp: a replicate_app_Cons_same)
qed

lemma FunctionalEntity_setup_throws:
  assumes "childEntities \<noteq> []"
  shows "\<exists>p. FunctionalEntity_new H childEntities = Inr p \<and>
           pe_entities p = replicate (length childEntities) None \<and>
           FunctionalEntity_setup H F fi c p =
             Inl (TypeError ''Cannot read properties of null (reading isSetup)'')"
proof -
  have "\<not> isSetup (ParallelEntity_empty None :: 'a parallelEntity)"
    by (simp add: ParallelEntity_empty_def Entity_new_def entity.extend_def)
  from FunctionalEntity_addChildren_unset [OF this, of H childEntities]
  obtain p :: "'a parallelEntity" where
    n: "FunctionalEntity_new H childEntities = Inr p" and
    e: "pe_entities p = replicate (length childEntities) None"
    by (auto simp: FunctionalEntity_new_def ParallelEntity_empty_def parallelEntity.fields_def
        entity.extend_def)
  have q: "pe_entities (Entity_setup baseHooks fi c p) = replicate (length childEntities) None"
    by (simp add: e Entity_setup_def baseHooks_def console_error_def Let_def)
  have "ParallelEntity_setup H fi c p =
      Inl (TypeError ''Cannot read properties of null (reading isSetup)'')"
    unfolding ParallelEntity_setup_def using assms
    by (subst ParallelEntity_setup_loop.simps) (simp add: q ParallelEntity_setup_child_def)
  then show ?thesis using n e by (simp add: FunctionalEntity_setup_def)
qed

text \<open>
  C9. A \<^verbatim>\<open>FunctionalEntity\<close> built with one child holds \<^verbatim>\<open>null\<close> where the child should
  be and the child where its configuration should be; its \<open>setup\<close> throws on reading
  \<^verbatim>\<open>isSetup\<close> of \<^verbatim>\<open>null\<close>, so the child is never set up.
\<close>

theorem C9_FunctionalEntity_children_lost:
  "\<exists>p. FunctionalEntity_new scriptedHooks [scripted []] = Inr p \<and>
       pe_entities p = [None] \<and>
       pe_entityConfigs p = [AcEntity (scripted [])] \<and>
       FunctionalEntity_setup scriptedHooks noFunctions (Some frame0) (Some []) p =
         Inl (TypeError ''Cannot read properties of null (reading isSetup)'')"
  by (simp add: FunctionalEntity_new_def ParallelEntity_empty_def ParallelEntity_addEntity_def
      Entity_new_def entity.extend_def parallelEntity.fields_def Let_def
      FunctionalEntity_setup_def ParallelEntity_setup_def ParallelEntity_setup_loop.simps
      ParallelEntity_setup_child_def Entity_setup_def baseHooks_def)

section \<open>DeflatingCompositeEntity: one pass of update\<close>

declare DeflatingCompositeEntity_update_loop.simps [simp del]

lemma deflating_loop_stop:
  "\<not> i < length (dc_entities d) \<Longrightarrow> DeflatingCompositeEntity_update_loop H fi i d = d"
  by (subst DeflatingCompositeEntity_update_loop.simps) simp

lemma deflating_loop_keep:
  assumes "i < length (dc_entities d)"
    and "\<not> truthy (requestedTransition (Entity_update H fi (dc_entities d ! i)))"
  shows "DeflatingCompositeEntity_update_loop H fi i d =
     DeflatingCompositeEntity_update_loop H fi (Suc i)
       (logCall (UpdateCall i)
          (d\<lparr>dc_entities := (dc_entities d)[i := Entity_update H fi (dc_entities d ! i)]\<rparr>))"
  using assms
  by (subst DeflatingCompositeEntity_update_loop.simps)
     (simp add: DeflatingCompositeEntity_update_child_def Let_def)

lemma deflating_loop_drop:
  assumes "i < length (dc_entities d)"
    and "truthy (requestedTransition (Entity_update H fi (dc_entities d ! i)))"
  shows "DeflatingCompositeEntity_update_loop H fi i d =
     DeflatingCompositeEntity_update_loop H fi i
       ((logCalls (UpdateCall i #
            (if isSetup (Entity_update H fi (dc_entities d ! i)) then [TeardownCall i] else [])) d)
          \<lparr>dc_entities := splice1 i (dc_entities d)\<rparr>)"
  using assms
  by (subst DeflatingCompositeEntity_update_loop.simps)
     (simp add: DeflatingCompositeEntity_update_child_def Let_def logCall_def logCalls_def
        splice1_def)

lemma deflating_loop_char:
  "i \<le> length (dc_entities d) \<Longrightarrow>
   dc_entities (DeflatingCompositeEntity_update_loop H fi i d) =
     take i (dc_entities d) @
     filter (\<lambda>e. \<not> truthy (requestedTransition e)) (map (Entity_update H fi) (drop i (dc_entities d))) \<and>
   childCalls (DeflatingCompositeEntity_update_loop H fi i d) =
     childCalls d @ deflatingCalls H fi i (drop i (dc_entities d)) \<and>
   requestedTransition (DeflatingCompositeEntity_update_loop H fi i d) = requestedTransition d \<and>
   dc_autoTransition (DeflatingCompositeEntity_update_loop H fi i d) = dc_autoTransition d"
proof (induction "length (dc_entities d) - i" arbitrary: i d rule: less_induct)
  case less
  show ?case
  proof (cases "i < length (dc_entities d)")
    case False
    with less.prems show ?thesis by (simp add: deflating_loop_stop)
  next
    case lt: True
    then have dr: "drop i (dc_entities d) = dc_entities d ! i # drop (Suc i) (dc_entities d)"
      by (simp add: Cons_nth_drop_Suc)
    show ?thesis
    proof (cases "truthy (requestedTransition (Entity_update H fi (dc_entities d ! i)))")
      case False
      let ?d1 = "logCall (UpdateCall i)
          (d\<lparr>dc_entities := (dc_entities d)[i := Entity_update H fi (dc_entities d ! i)]\<rparr>)"
      have s: "DeflatingCompositeEntity_update_loop H fi i d =
          DeflatingCompositeEntity_update_loop H fi (Suc i) ?d1"
        by (rule deflating_loop_keep [OF lt False])
      have m: "length (dc_entities ?d1) - Suc i < length (dc_entities d) - i"
        using lt by (simp add: logCall_def)
      have b: "Suc i \<le> length (dc_entities ?d1)" using lt by (simp add: logCall_def)
      have t: "take (Suc i) (dc_entities ?d1) =
          take i (dc_entities d) @ [Entity_update H fi (dc_entities d ! i)]"
        using lt by (simp add: logCall_def take_Suc_conv_app_nth)
      have dd: "drop (Suc i) (dc_entities ?d1) = drop (Suc i) (dc_entities d)"
        by (simp add: logCall_def)
      from less.hyps [OF m b] show ?thesis
        unfolding s t dd dr using False by (simp add: logCall_def)
    next
      case True
      let ?d1 = "(logCalls (UpdateCall i #
            (if isSetup (Entity_update H fi (dc_entities d ! i)) then [TeardownCall i] else [])) d)
          \<lparr>dc_entities := splice1 i (dc_entities d)\<rparr>"
      have s: "DeflatingCompositeEntity_update_loop H fi i d =
          DeflatingCompositeEntity_update_loop H fi i ?d1"
        by (rule deflating_loop_drop [OF lt True])
      have m: "length (dc_entities ?d1) - i < length (dc_entities d) - i"
        using lt by (simp add: logCalls_def splice1_def)
      have b: "i \<le> length (dc_entities ?d1)" using lt by (simp add: logCalls_def splice1_def)
      have t: "take i (dc_entities ?d1) = take i (dc_entities d)"
        using lt by (simp add: logCalls_def splice1_def)
      have dd: "drop i (dc_entities ?d1) = drop (Suc i) (dc_entities d)"
        using lt by (simp add: logCalls_def splice1_def)
      from less.hyps [OF m b] show ?thesis
        unfolding s t dd dr using True by (simp add: logCalls_def)
    qed
  qed
qed


lemma deflatingCalls_set_up:
  "hooksKeepIsSetup H \<Longrightarrow> list_all isSetup es \<Longrightarrow>
   deflatingCalls H fi i es = tornDownWhenComplete H fi i es"
  by (induction es arbitrary: i) (simp_all add: completesOnUpdate_def isSetup_Entity_update)

lemma Entity_update_base_dc:
  "dc_entities (Entity_update baseHooks fi d) = dc_entities d"
  "dc_autoTransition (Entity_update baseHooks fi d) = dc_autoTransition d"
  by (simp_all add: Entity_update_def baseHooks_def console_error_def Let_def)

lemma Entity_update_base_entity:
  "requestedTransition (Entity_update baseHooks fi e) = requestedTransition e"
  "childCalls (Entity_update baseHooks fi e) = childCalls e"
  "isSetup (Entity_update baseHooks fi e) = isSetup e"
  "entityConfig (Entity_update baseHooks fi e) = entityConfig e"
  by (simp_all add: Entity_update_def baseHooks_def console_error_def Let_def)

lemma hooksKeepIsSetup_scriptedHooks: "hooksKeepIsSetup scriptedHooks"
  by (simp add: hooksKeepIsSetup_def scriptedHooks_def split: list.splits)

text \<open>
  C5. One pass of \<open>update\<close> over a \<^verbatim>\<open>DeflatingCompositeEntity\<close> keeps, in their order and
  as updated, the children that request no transition, and splices the others out: the
  list shrinks by the number of children that complete. With \<^verbatim>\<open>autoTransition\<close> the
  transition of the composite is set to \<^verbatim>\<open>true\<close> exactly when the list is empty after
  the pass, and is otherwise what it was. When the children are set up, as they are after
  \<open>setup\<close>, each child that completes is torn down right after its update.
\<close>

theorem C5_DeflatingCompositeEntity_update:
  "dc_entities (DeflatingCompositeEntity_update H fi d) =
     filter (\<lambda>e. \<not> truthy (requestedTransition e)) (map (Entity_update H fi) (dc_entities d)) \<and>
   length (dc_entities (DeflatingCompositeEntity_update H fi d)) +
     length (filter (completesOnUpdate H fi) (dc_entities d)) = length (dc_entities d) \<and>
   requestedTransition (DeflatingCompositeEntity_update H fi d) =
     (if dc_autoTransition d \<and> dc_entities (DeflatingCompositeEntity_update H fi d) = []
      then JBool True else requestedTransition d) \<and>
   (hooksKeepIsSetup H \<and> list_all isSetup (dc_entities d) \<longrightarrow>
      childCalls (DeflatingCompositeEntity_update H fi d) =
        childCalls d @ tornDownWhenComplete H fi 0 (dc_entities d))"
proof -
  let ?q = "Entity_update baseHooks fi d"
  let ?l = "DeflatingCompositeEntity_update_loop H fi 0 ?q"
  have c: "dc_entities ?l =
       filter (\<lambda>e. \<not> truthy (requestedTransition e)) (map (Entity_update H fi) (dc_entities d))"
    "childCalls ?l = childCalls d @ deflatingCalls H fi 0 (dc_entities d)"
    "requestedTransition ?l = requestedTransition d"
    "dc_autoTransition ?l = dc_autoTransition d"
    using deflating_loop_char [of 0 ?q H fi]
    by (simp_all add: Entity_update_base_dc Entity_update_base_entity)
  have e: "dc_entities (DeflatingCompositeEntity_update H fi d) = dc_entities ?l"
    and k: "childCalls (DeflatingCompositeEntity_update H fi d) = childCalls ?l"
    and r: "requestedTransition (DeflatingCompositeEntity_update H fi d) =
       (if dc_autoTransition ?l \<and> dc_entities ?l = [] then JBool True else requestedTransition ?l)"
    by (simp_all add: DeflatingCompositeEntity_update_def Let_def)
  have n: "length (filter (\<lambda>e. \<not> truthy (requestedTransition e))
                (map (Entity_update H fi) (dc_entities d))) +
      length (filter (completesOnUpdate H fi) (dc_entities d)) = length (dc_entities d)"
    using sum_length_filter_compl [of "completesOnUpdate H fi" "dc_entities d"]
    by (simp add: filter_map comp_def completesOnUpdate_def)
  show ?thesis
    unfolding e k r c using n by (simp add: deflatingCalls_set_up)
qed


lemmas deflatingExample_defs =
  deflatingExample_def DeflatingCompositeEntity_setup_def DeflatingCompositeEntity_addEntity_def
  DeflatingCompositeEntity_new_def deflatingCompositeEntity.fields_def entity.extend_def
  Entity_new_def Entity_setup_def Entity_update_def baseHooks_def scriptedHooks_def scripted_def
  logCall_def logCalls_def Let_def completesOnUpdate_def

theorem C5_DeflatingCompositeEntity_update_witness:
  "hooksKeepIsSetup scriptedHooks \<and> list_all isSetup (dc_entities deflatingExample) \<and>
   length (dc_entities deflatingExample) = 2 \<and>
   length (dc_entities (DeflatingCompositeEntity_update scriptedHooks (Some frame0) deflatingExample)) = 1 \<and>
   requestedTransition (DeflatingCompositeEntity_update scriptedHooks (Some frame0) deflatingExample) = JNull \<and>
   childCalls (DeflatingCompositeEntity_update scriptedHooks (Some frame0) deflatingExample) =
     [SetupCall 0, SetupCall 1, UpdateCall 0, TeardownCall 0, UpdateCall 0] \<and>
   dc_entities (DeflatingCompositeEntity_update scriptedHooks (Some frame0)
     (DeflatingCompositeEntity_update scriptedHooks (Some frame0) deflatingExample)) = [] \<and>
   requestedTransition (DeflatingCompositeEntity_update scriptedHooks (Some frame0)
     (DeflatingCompositeEntity_update scriptedHooks (Some frame0) deflatingExample)) = JBool True"
proof -
  let ?u = "DeflatingCompositeEntity_update scriptedHooks (Some frame0) deflatingExample"
  note h1 = hooksKeepIsSetup_scriptedHooks
  have h2: "list_all isSetup (dc_entities deflatingExample)"
    by (simp add: deflatingExample_defs)
  have n: "length (dc_entities deflatingExample) = 2"
    by (simp add: deflatingExample_defs)
  note t = C5_DeflatingCompositeEntity_update [of scriptedHooks "Some frame0" deflatingExample]
  note t2 = C5_DeflatingCompositeEntity_update [of scriptedHooks "Some frame0" ?u]
  have a: "dc_entities ?u = filter (\<lambda>e. \<not> truthy (requestedTransition e))
      (map (Entity_update scriptedHooks (Some frame0)) (dc_entities deflatingExample))"
    using t by blast
  have a1: "length (dc_entities ?u) = 1"
    unfolding a by (simp add: deflatingExample_defs)
  have r0: "requestedTransition deflatingExample = JNull" "dc_autoTransition deflatingExample"
    "childCalls deflatingExample = [SetupCall 0, SetupCall 1]"
    by (simp_all add: deflatingExample_defs)
  have ne: "dc_entities ?u \<noteq> []" using a1 by auto
  have "requestedTransition ?u =
      (if dc_autoTransition deflatingExample \<and> dc_entities ?u = []
       then JBool True else requestedTransition deflatingExample)"
    using t by blast
  then have r: "requestedTransition ?u = JNull"
    by (simp add: ne r0)
  have k: "childCalls ?u = [SetupCall 0, SetupCall 1, UpdateCall 0, TeardownCall 0, UpdateCall 0]"
  proof -
    have "childCalls ?u = childCalls deflatingExample @
        tornDownWhenComplete scriptedHooks (Some frame0) 0 (dc_entities deflatingExample)"
      using t h1 h2 by blast
    then show ?thesis by (simp add: deflatingExample_defs)
  qed
  have b: "dc_entities (DeflatingCompositeEntity_update scriptedHooks (Some frame0) ?u) = []"
  proof -
    have "dc_entities (DeflatingCompositeEntity_update scriptedHooks (Some frame0) ?u) =
      filter (\<lambda>e. \<not> truthy (requestedTransition e))
      (map (Entity_update scriptedHooks (Some frame0)) (dc_entities ?u))"
      using t2 by blast
    then show ?thesis unfolding a by (simp add: deflatingExample_defs)
  qed
  have au: "dc_autoTransition ?u"
    by (simp add: DeflatingCompositeEntity_update_def Let_def deflating_loop_char
        Entity_update_base_dc r0)
  have "requestedTransition (DeflatingCompositeEntity_update scriptedHooks (Some frame0) ?u) =
      (if dc_autoTransition ?u \<and>
          dc_entities (DeflatingCompositeEntity_update scriptedHooks (Some frame0) ?u) = []
       then JBool True else requestedTransition ?u)"
    using t2 by blast
  then have r2: "requestedTransition (DeflatingCompositeEntity_update scriptedHooks (Some frame0) ?u) = JBool True"
    by (simp add: b au)
  show ?thesis using h1 h2 n a1 r k b r2 by simp
qed

section \<open>Alternative: which label wins\<close>

lemma completedLabels_append:
  "completedLabels H fi (xs @ ys) = completedLabels H fi xs @ completedLabels H fi ys"
  by (simp add: completedLabels_def)

lemma Alternative_update_child_fields:
  "alt_entityPairs (Alternative_update_child H fi a i) =
     (alt_entityPairs a)[i := (alt_entityPairs a ! i)
        \<lparr>ep_entity := Entity_update H fi (ep_entity (alt_entityPairs a ! i))\<rparr>]"
  "requestedTransition (Alternative_update_child H fi a i) =
     (if truthy (requestedTransition (Entity_update H fi (ep_entity (alt_entityPairs a ! i))))
      then JStr (ep_transition (alt_entityPairs a ! i)) else requestedTransition a)"
  "childCalls (Alternative_update_child H fi a i) = childCalls a @ [UpdateCall i]"
  by (simp_all add: Alternative_update_child_def Let_def logCall_def)

lemma Alternative_update_prefix:
  "k \<le> length (alt_entityPairs a) \<Longrightarrow>
   alt_entityPairs (foldl (Alternative_update_child H fi) a [0..<k]) =
     updatedPairs H fi (take k (alt_entityPairs a)) @ drop k (alt_entityPairs a) \<and>
   requestedTransition (foldl (Alternative_update_child H fi) a [0..<k]) =
     (if completedLabels H fi (take k (alt_entityPairs a)) = [] then requestedTransition a
      else JStr (last (completedLabels H fi (take k (alt_entityPairs a))))) \<and>
   childCalls (foldl (Alternative_update_child H fi) a [0..<k]) =
     childCalls a @ map UpdateCall [0..<k]"
proof (induction k)
  case 0
  show ?case by (simp add: updatedPairs_def completedLabels_def)
next
  case (Suc k)
  let ?a = "foldl (Alternative_update_child H fi) a [0..<k]"
  let ?pr = "alt_entityPairs a ! k"
  from Suc have lt: "k < length (alt_entityPairs a)" by simp
  with Suc.IH have
    e: "alt_entityPairs ?a = updatedPairs H fi (take k (alt_entityPairs a)) @ drop k (alt_entityPairs a)"
    and r: "requestedTransition ?a =
     (if completedLabels H fi (take k (alt_entityPairs a)) = [] then requestedTransition a
      else JStr (last (completedLabels H fi (take k (alt_entityPairs a)))))"
    and c: "childCalls ?a = childCalls a @ map UpdateCall [0..<k]"
    by simp_all
  have nk: "alt_entityPairs ?a ! k = ?pr"
    using lt by (simp add: e updatedPairs_def nth_append)
  have tk: "take (Suc k) (alt_entityPairs a) = take k (alt_entityPairs a) @ [?pr]"
    using lt by (simp add: take_Suc_conv_app_nth)
  have upd: "(updatedPairs H fi (take k (alt_entityPairs a)) @ drop k (alt_entityPairs a))
      [k := ?pr\<lparr>ep_entity := Entity_update H fi (ep_entity ?pr)\<rparr>] =
      updatedPairs H fi (take (Suc k) (alt_entityPairs a)) @ drop (Suc k) (alt_entityPairs a)"
    using lt
    by (simp add: tk updatedPairs_def list_update_append Cons_nth_drop_Suc [symmetric])
  have f: "foldl (Alternative_update_child H fi) a [0..<Suc k] = Alternative_update_child H fi ?a k"
    by simp
  have lab: "completedLabels H fi (take (Suc k) (alt_entityPairs a)) =
      completedLabels H fi (take k (alt_entityPairs a)) @
      (if truthy (requestedTransition (Entity_update H fi (ep_entity ?pr)))
       then [ep_transition ?pr] else [])"
    unfolding tk completedLabels_append by (simp add: completedLabels_def)
  have 1: "alt_entityPairs (Alternative_update_child H fi ?a k) =
     updatedPairs H fi (take (Suc k) (alt_entityPairs a)) @ drop (Suc k) (alt_entityPairs a)"
    unfolding Alternative_update_child_fields nk unfolding e upd ..
  have 2: "requestedTransition (Alternative_update_child H fi ?a k) =
     (if completedLabels H fi (take (Suc k) (alt_entityPairs a)) = [] then requestedTransition a
      else JStr (last (completedLabels H fi (take (Suc k) (alt_entityPairs a)))))"
    unfolding Alternative_update_child_fields nk r lab by simp
  have 3: "childCalls (Alternative_update_child H fi ?a k) = childCalls a @ map UpdateCall [0..<Suc k]"
    unfolding Alternative_update_child_fields c by simp
  show ?case unfolding f using 1 2 3 by blast
qed


text \<open>
  C1, as the code has it. After one pass of \<open>update\<close> over an \<^verbatim>\<open>Alternative\<close>, every child
  has been updated, and the transition of the \<^verbatim>\<open>Alternative\<close> is the label of the
  last-listed child that requests a transition after its update; if no child does, it is
  what it was before the pass.
\<close>

theorem C1_Alternative_update_last_label:
  "alt_entityPairs (Alternative_update H fi a) = updatedPairs H fi (alt_entityPairs a) \<and>
   requestedTransition (Alternative_update H fi a) =
     (if completedLabels H fi (alt_entityPairs a) = [] then requestedTransition a
      else JStr (last (completedLabels H fi (alt_entityPairs a)))) \<and>
   childCalls (Alternative_update H fi a) =
     childCalls a @ map UpdateCall [0..<length (alt_entityPairs a)]"
proof -
  let ?q = "(if \<not> isSetup a then console_error ''update() called before setup()'' a else a)
              \<lparr>lastFrameInfo := fi\<rparr>"
  have q: "alt_entityPairs ?q = alt_entityPairs a" "requestedTransition ?q = requestedTransition a"
    "childCalls ?q = childCalls a"
    by (simp_all add: console_error_def)
  have u: "Alternative_update H fi a =
      foldl (Alternative_update_child H fi) ?q [0..<length (alt_entityPairs ?q)]"
    by (simp add: Alternative_update_def Entity_update_def alternativeHooks_def Let_def)
  show ?thesis
    unfolding u using Alternative_update_prefix [of "length (alt_entityPairs ?q)" ?q H fi]
    unfolding q by simp
qed

lemmas alternativeExample_defs =
  alternativeExample_def Alternative_setup_def Alternative_new_def alternative.fields_def
  entity.extend_def Entity_new_def Entity_setup_def Entity_update_def alternativeHooks_def
  Alternative_setup_child_def Alternative_update_child_def Alternative_update_def
  scriptedHooks_def scripted_def logCall_def Let_def upt_rec

text \<open>
  C1, as the claim states it, fails on the race \<^verbatim>\<open>[A, B]\<close> with default labels: both
  children request a transition at the same update, and the transition of the
  \<^verbatim>\<open>Alternative\<close> is \<^verbatim>\<open>"1"\<close>, the label of \<open>B\<close>, not \<^verbatim>\<open>"0"\<close>.
\<close>

theorem C1_Alternative_first_label_counterexample:
  "map ep_transition (alt_entityPairs alternativeExample) = [''0'', ''1''] \<and>
   list_all (\<lambda>pr. isSetup (ep_entity pr) \<and> \<not> truthy (requestedTransition (ep_entity pr)))
     (alt_entityPairs alternativeExample) \<and>
   \<not> truthy (requestedTransition alternativeExample) \<and>
   map (\<lambda>pr. requestedTransition (ep_entity pr))
     (alt_entityPairs (Alternative_update scriptedHooks (Some frame0) alternativeExample)) =
     [JStr ''A'', JStr ''B''] \<and>
   requestedTransition (Alternative_update scriptedHooks (Some frame0) alternativeExample) = JStr ''1'' \<and>
   requestedTransition (Alternative_update scriptedHooks (Some frame0) alternativeExample) \<noteq> JStr ''0''"
  by (simp add: alternativeExample_defs)

section \<open>SwitchingEntity: what setup activates\<close>

lemma Entity_setup_base_sw:
  "sw_entities (Entity_setup baseHooks fi c s) = sw_entities s"
  "sw_entityConfigs (Entity_setup baseHooks fi c s) = sw_entityConfigs s"
  "sw_activeEntityIndex (Entity_setup baseHooks fi c s) = sw_activeEntityIndex s"
  "childCalls (Entity_setup baseHooks fi c s) = childCalls s"
  by (simp_all add: Entity_setup_def baseHooks_def console_error_def Let_def)

lemma Entity_update_base_sw:
  "sw_entities (Entity_update baseHooks fi s) = sw_entities s"
  "sw_activeEntityIndex (Entity_update baseHooks fi s) = sw_activeEntityIndex s"
  by (simp_all add: Entity_update_def baseHooks_def console_error_def Let_def)

text \<open>
  C10. A fresh \<^verbatim>\<open>SwitchingEntity\<close> has the active index \<open>-1\<close>, and \<open>addEntity\<close> leaves the
  index alone. When the index is \<open>-1\<close> or \<open>0\<close> at the time of \<open>setup\<close>, \<open>setup\<close> does what
  the base class does and nothing else: no child is touched, no call reaches a child, and
  the index stays; only with a positive index does \<open>setup\<close> go through \<open>switchToIndex\<close>.
  An \<open>update\<close> with a negative index touches no child either. A call of
  \<open>switchToIndex\<close> with an index inside the list, on an entity with no active child, sets
  that child up and makes it the active one.
\<close>

theorem C10_SwitchingEntity_setup_activates_nothing:
  "sw_activeEntityIndex (SwitchingEntity_new :: 'x switchingEntity) = - 1 \<and>
   sw_activeEntityIndex (SwitchingEntity_addEntity ent cfg (s :: ('x, 'b) switchingEntity_scheme)) =
     sw_activeEntityIndex s \<and>
   (sw_activeEntityIndex s \<le> 0 \<longrightarrow>
      SwitchingEntity_setup H fi c s = Inr (Entity_setup baseHooks fi c s) \<and>
      sw_entities (Entity_setup baseHooks fi c s) = sw_entities s \<and>
      sw_activeEntityIndex (Entity_setup baseHooks fi c s) = sw_activeEntityIndex s \<and>
      childCalls (Entity_setup baseHooks fi c s) = childCalls s) \<and>
   (0 < sw_activeEntityIndex s \<longrightarrow>
      SwitchingEntity_setup H fi c s =
        SwitchingEntity_switchToIndex H (sw_activeEntityIndex s) (Entity_setup baseHooks fi c s)) \<and>
   (sw_activeEntityIndex s < 0 \<longrightarrow>
      SwitchingEntity_update H fi s = Inr (Entity_update baseHooks fi s) \<and>
      sw_entities (Entity_update baseHooks fi s) = sw_entities s) \<and>
   (sw_activeEntityIndex s < 0 \<and> 0 \<le> index \<and> nat index < length (sw_entities s) \<longrightarrow>
      (\<exists>s'. SwitchingEntity_switchToIndex H index s = Inr s' \<and>
            sw_activeEntityIndex s' = index \<and>
            sw_entities s' = (sw_entities s)[nat index :=
               Entity_setup H (lastFrameInfo s)
                 (processEntityConfig (entityConfig s) (js_get AcNone (sw_entityConfigs s) (nat index)))
                 (sw_entities s ! nat index)] \<and>
            childCalls s' = childCalls s @ [SetupCall (nat index)]))"
  by (auto simp: SwitchingEntity_new_def switchingEntity.fields_def entity.extend_def
      SwitchingEntity_addEntity_def SwitchingEntity_setup_def SwitchingEntity_update_def
      SwitchingEntity_switchToIndex_def Entity_setup_base_sw Entity_update_base_sw Let_def
      logCall_def)

lemmas switchingExample_defs =
  switchingExample_def switchingExample0_def SwitchingEntity_new_def switchingEntity.fields_def
  entity.extend_def SwitchingEntity_addEntity_def SwitchingEntity_switchToIndex_def
  Entity_new_def Entity_setup_def baseHooks_def scriptedHooks_def scripted_def logCall_def
  Let_def js_get_def


theorem C10_SwitchingEntity_setup_activates_nothing_witness:
  "sw_activeEntityIndex switchingExample = - 1 \<and>
   (\<exists>s'. SwitchingEntity_setup scriptedHooks (Some frame0) (Some []) switchingExample = Inr s' \<and>
      sw_activeEntityIndex s' = - 1 \<and>
      map isSetup (sw_entities s') = [False, False] \<and> childCalls s' = []) \<and>
   sw_activeEntityIndex switchingExample0 = 0 \<and>
   (\<exists>s'. SwitchingEntity_setup scriptedHooks (Some frame0) (Some [(''k'', JNum 1)]) switchingExample0 = Inr s' \<and>
      sw_activeEntityIndex s' = 0 \<and>
      sw_entities s' = sw_entities switchingExample0 \<and>
      map entityConfig (sw_entities s') = [None, None] \<and>
      childCalls s' = [SetupCall 0]) \<and>
   (\<exists>s'. SwitchingEntity_switchToIndex scriptedHooks 1 switchingExample = Inr s' \<and>
      sw_activeEntityIndex s' = 1 \<and>
      map isSetup (sw_entities s') = [False, True])"
proof -
  have i: "sw_activeEntityIndex switchingExample = - 1" "sw_activeEntityIndex switchingExample0 = 0"
    by (simp_all add: switchingExample_defs)
  have e: "map isSetup (sw_entities switchingExample) = [False, False]"
    "childCalls switchingExample = []" "childCalls switchingExample0 = [SetupCall 0]"
    "map entityConfig (sw_entities switchingExample0) = [None, None]"
    "length (sw_entities switchingExample) = 2"
    by (simp_all add: switchingExample_defs)
  note t = C10_SwitchingEntity_setup_activates_nothing
  have a: "SwitchingEntity_setup scriptedHooks (Some frame0) (Some []) switchingExample =
      Inr (Entity_setup baseHooks (Some frame0) (Some []) switchingExample)"
    using t [where s = switchingExample and H = scriptedHooks and fi = "Some frame0"
        and c = "Some []" and ent = "scripted []" and cfg = AcNone and index = 0] i
    by simp
  have b: "SwitchingEntity_setup scriptedHooks (Some frame0) (Some [(''k'', JNum 1)]) switchingExample0 =
      Inr (Entity_setup baseHooks (Some frame0) (Some [(''k'', JNum 1)]) switchingExample0)"
    using t [where s = switchingExample0 and H = scriptedHooks and fi = "Some frame0"
        and c = "Some [(''k'', JNum 1)]" and ent = "scripted []" and cfg = AcNone and index = 0] i
    by simp
  have "\<exists>s'. SwitchingEntity_switchToIndex scriptedHooks 1 switchingExample = Inr s' \<and>
      sw_activeEntityIndex s' = 1 \<and>
      sw_entities s' = (sw_entities switchingExample)[nat 1 :=
               Entity_setup scriptedHooks (lastFrameInfo switchingExample)
                 (processEntityConfig (entityConfig switchingExample)
                    (js_get AcNone (sw_entityConfigs switchingExample) (nat 1)))
                 (sw_entities switchingExample ! nat 1)]"
    using t [where s = switchingExample and H = scriptedHooks and index = 1
        and fi = "Some frame0" and c = "Some []" and ent = "scripted []" and cfg = AcNone] i e
    by auto
  then obtain s' where c: "SwitchingEntity_switchToIndex scriptedHooks 1 switchingExample = Inr s'"
      "sw_activeEntityIndex s' = 1"
      "sw_entities s' = (sw_entities switchingExample)[nat 1 :=
               Entity_setup scriptedHooks (lastFrameInfo switchingExample)
                 (processEntityConfig (entityConfig switchingExample)
                    (js_get AcNone (sw_entityConfigs switchingExample) (nat 1)))
                 (sw_entities switchingExample ! nat 1)]"
    by blast
  have "map isSetup (sw_entities s') = [False, True]"
    unfolding c(3) by (simp add: switchingExample_defs)
  with c(1,2) have d: "\<exists>s'. SwitchingEntity_switchToIndex scriptedHooks 1 switchingExample = Inr s' \<and>
      sw_activeEntityIndex s' = 1 \<and> map isSetup (sw_entities s') = [False, True]"
    by (intro exI [of _ s']) simp
  show ?thesis
    unfolding a b using i e d by (simp add: Entity_setup_base_sw)
qed

section \<open>EntitySequence: one setup and one teardown per child\<close>











































section \<open>StateMachine: resolvers, ending states and visited states\<close>

lemma Entity_update_base_sm:
  "sm_state (Entity_update baseHooks fi m) = sm_state m"
  "sm_stateName (Entity_update baseHooks fi m) = sm_stateName m"
  "sm_visitedStates (Entity_update baseHooks fi m) = sm_visitedStates m"
  "sm_endingStates (Entity_update baseHooks fi m) = sm_endingStates m"
  by (simp_all add: Entity_update_def baseHooks_def console_error_def Let_def)

text \<open>
  C2, as the code has it. When the state has requested a transition and the entry of the
  table for the current state is a function, \<open>update\<close> calls that function with the name
  and the parameters of the transition and, as third argument, the state machine itself,
  as it stands after the update of the state; what the function returns is unpacked as
  the descriptor of the next state.
\<close>

theorem C2_resolver_called_with_machine:
  assumes "sm_state m = Some e"
    and "truthy (requestedTransition (Entity_update H fi e))"
    and "sm_transitions m (toPropertyKey (sm_stateName m)) = Some (TransitionFunction f)"
  shows "StateMachine_update H fi m =
     (let requested = requestedTransition (Entity_update H fi e);
          m2 = logCall (UpdateCall 0)
                 (setState (toPropertyKey (sm_stateName m)) (Entity_update H fi e)
                    (Entity_update baseHooks fi m))
      in case f (fst (unpackTransition requested)) (snd (unpackTransition requested))
                (Machine (machineViewOf m2)) of
           Inl err \<Rightarrow> Inl err
         | Inr nextStateDescriptor \<Rightarrow>
             (case unpackNextState nextStateDescriptor requested of
                Inl err \<Rightarrow> Inl err
              | Inr (nextStateName, nextStateParams) \<Rightarrow>
                  StateMachine_changeState H nextStateName nextStateParams m2))"
proof -
  let ?m1 = "Entity_update baseHooks fi m"
  let ?m2 = "logCall (UpdateCall 0)
                 (setState (toPropertyKey (sm_stateName m)) (Entity_update H fi e) ?m1)"
  have t: "sm_transitions ?m2 (toPropertyKey (sm_stateName ?m2)) = Some (TransitionFunction f)"
    using assms(3)
    by (simp add: logCall_def setState_def Entity_update_def baseHooks_def console_error_def Let_def)
  have "nextStateDescriptorOf ?m2 r n p = f n p (Machine (machineViewOf ?m2))" for r n p
    using t by (simp add: nextStateDescriptorOf_def Let_def)
  then show ?thesis
    using assms(1,2)
    by (simp add: StateMachine_update_def Let_def Entity_update_base_sm split: prod.splits)
qed


lemmas machine_defs =
  StateMachine_new_def stateMachine.fields_def entity.extend_def Entity_new_def defaultOptions_def
  StateMachine_setup_def StateMachine_update_def StateMachine_changeState_def setState_def
  machineViewOf_def nextStateDescriptorOf_def makeTransitionTable_def asTransition_def
  Entity_setup_def Entity_update_def Entity_teardown_def Entity_off_def baseHooks_def
  scriptedHooks_def scripted_def logCall_def Let_def

lemma probeExample_state:
  "sm_stateName probeExample = JStr ''start''"
  "sm_state probeExample = Some probeChild"
  "truthy (requestedTransition (Entity_update scriptedHooks (Some frame0) probeChild))"
  "sm_transitions probeExample (toPropertyKey (sm_stateName probeExample)) =
     Some (asTransition (makeTransitionTable [''win'' \<mapsto> EntryFunction probe]))"
  by (simp_all add: probeExample_def probeChild_def machine_defs)

theorem C2_resolver_called_with_machine_witness:
  "sm_state probeExample = Some probeChild \<and>
   truthy (requestedTransition (Entity_update scriptedHooks (Some frame0) probeChild)) \<and>
   sm_transitions probeExample (toPropertyKey (sm_stateName probeExample)) =
     Some (TransitionFunction
       (\<lambda>name params ctx. makeTransitionTable [''win'' \<mapsto> EntryFunction probe] name params ctx JUndefined)) \<and>
   sm_stateName (projr (StateMachine_update scriptedHooks (Some frame0) probeExample)) = JStr ''byMachine''"
proof -
  note h = probeExample_state(2,3) probeExample_state(4) [unfolded asTransition_def]
  note t = C2_resolver_called_with_machine [OF h]
  have "sm_stateName (projr (StateMachine_update scriptedHooks (Some frame0) probeExample)) =
      JStr ''byMachine''"
    unfolding t
    by (simp add: Let_def makeTransitionTable_def)
       (simp add: probeExample_def probeChild_def machine_defs)
  with h show ?thesis by simp
qed

text \<open>
  C2, as the claim states it, fails: a function of a table built by
  \<^verbatim>\<open>makeTransitionTable\<close> that answers \<^verbatim>\<open>byName\<close> when its third argument is the name
  of the current state, as the claim has it, and \<^verbatim>\<open>byMachine\<close> when it is the machine,
  sends the machine from \<^verbatim>\<open>start\<close> to the state \<^verbatim>\<open>byMachine\<close>.
\<close>

theorem C2_resolver_third_argument_counterexample:
  "sm_stateName probeExample = JStr ''start'' \<and>
   probe (JStr ''win'') JUndefined (Plain (sm_stateName probeExample)) JUndefined =
     Inr (JStr ''byName'') \<and>
   (\<exists>m'. StateMachine_update scriptedHooks (Some frame0) probeExample = Inr m' \<and>
      sm_stateName m' = JStr ''byMachine'' \<and> sm_stateName m' \<noteq> JStr ''byName'')"
  by (simp add: probeExample_def machine_defs)


lemma changeState_visited:
  assumes "StateMachine_changeState H n p m = Inr m'"
  shows "sm_visitedStates m' = sm_visitedStates m @ [n] \<and>
     (sm_stateName m' = JStr n \<or> n \<in> set (sm_endingStates m) \<and> requestedTransition m' = JStr n)"
proof (cases "n \<in> set (sm_endingStates m)")
  case True
  with assms show ?thesis by (auto simp: StateMachine_changeState_def)
next
  case False
  let ?m1 = "(case sm_state m of
               None \<Rightarrow> m
             | Some e \<Rightarrow>
                 logCall (TeardownCall 0)
                   (setState (toPropertyKey (sm_stateName m))
                      (Entity_teardown H (lastFrameInfo m) e) m))"
  have v: "sm_visitedStates ?m1 = sm_visitedStates m"
    by (simp add: logCall_def setState_def split: option.splits)
  from assms False show ?thesis
    unfolding StateMachine_changeState_def Let_def
    by (auto simp: v logCall_def setState_def split: option.splits)
qed

lemma update_visited:
  assumes "StateMachine_update H fi m = Inr m'"
  shows "sm_visitedStates m' = sm_visitedStates m \<or>
     (\<exists>n. sm_visitedStates m' = sm_visitedStates m @ [n] \<and>
        (sm_stateName m' = JStr n \<or> n \<in> set (sm_endingStates m) \<and> requestedTransition m' = JStr n))"
proof (cases "sm_state m")
  case None
  with assms show ?thesis
    by (auto simp: StateMachine_update_def Let_def Entity_update_base_sm)
next
  case (Some e)
  let ?m2 = "logCall (UpdateCall 0)
      (setState (toPropertyKey (sm_stateName m)) (Entity_update H fi e) (Entity_update baseHooks fi m))"
  have f: "sm_visitedStates ?m2 = sm_visitedStates m" "sm_endingStates ?m2 = sm_endingStates m"
    by (simp_all add: logCall_def setState_def Entity_update_base_sm)
  show ?thesis
  proof (cases "truthy (requestedTransition (Entity_update H fi e))")
    case False
    with assms Some have "m' = ?m2"
      by (simp add: StateMachine_update_def Let_def Entity_update_base_sm)
    then show ?thesis by (simp add: f)
  next
    case True
    with assms Some obtain n p where "StateMachine_changeState H n p ?m2 = Inr m'"
      by (auto simp: StateMachine_update_def Let_def Entity_update_base_sm
          split: prod.splits sum.splits)
    from changeState_visited [OF this] show ?thesis by (auto simp: f)
  qed
qed

lemma update_visited_exact:
  assumes "StateMachine_update H fi m = Inr m'"
  shows "(case sm_state m of
        None \<Rightarrow> sm_visitedStates m' = sm_visitedStates m
      | Some e \<Rightarrow>
          if truthy (requestedTransition (Entity_update H fi e)) then
            (\<exists>k. sm_visitedStates m' = sm_visitedStates m @ [k] \<and>
               (sm_stateName m' = JStr k \<or>
                k \<in> set (sm_endingStates m) \<and> requestedTransition m' = JStr k))
          else sm_visitedStates m' = sm_visitedStates m \<and> sm_stateName m' = sm_stateName m)"
proof (cases "sm_state m")
  case None
  with assms show ?thesis
    by (auto simp: StateMachine_update_def Let_def Entity_update_base_sm)
next
  case (Some e)
  let ?m2 = "logCall (UpdateCall 0)
      (setState (toPropertyKey (sm_stateName m)) (Entity_update H fi e) (Entity_update baseHooks fi m))"
  have f: "sm_visitedStates ?m2 = sm_visitedStates m" "sm_endingStates ?m2 = sm_endingStates m"
    "sm_stateName ?m2 = sm_stateName m"
    by (simp_all add: logCall_def setState_def Entity_update_base_sm)
  show ?thesis
  proof (cases "truthy (requestedTransition (Entity_update H fi e))")
    case False
    with assms Some have "m' = ?m2"
      by (simp add: StateMachine_update_def Let_def Entity_update_base_sm)
    with Some False show ?thesis by (simp add: f)
  next
    case True
    with assms Some obtain n p where "StateMachine_changeState H n p ?m2 = Inr m'"
      by (auto simp: StateMachine_update_def Let_def Entity_update_base_sm
          split: prod.splits sum.splits)
    from changeState_visited [OF this] Some True show ?thesis by (auto simp: f)
  qed
qed

text \<open>
  C3, as the code has it. When the name of the next state is an ending state,
  \<open>_changeState\<close> returns normally with the name as the machine's transition and
  appended to the visited states, and with nothing else changed: the state entity, the
  table of states, the current name, the calls made on children and the changes emitted
  are what they were, so nothing is torn down, made or set up. Every \<open>_changeState\<close> that
  returns appends the name it was given to the visited states; \<open>setup\<close>, when it returns,
  leaves the starting state as the one visited state; an \<open>update\<close> that returns leaves
  the visited states alone or appends one name, that of the state entered or of the
  ending state reached: it appends exactly when the state has requested a transition,
  and otherwise the name of the current state stays as well. So the visited states are the names of all the states entered,
  the starting state first, in the order of the visits.
\<close>

theorem C3_visitedStates_and_ending:
  "(n \<in> set (sm_endingStates m) \<longrightarrow>
      (\<exists>m'. StateMachine_changeState H n p m = Inr m' \<and>
         requestedTransition m' = JStr n \<and> sm_visitedStates m' = sm_visitedStates m @ [n] \<and>
         sm_state m' = sm_state m \<and> sm_states m' = sm_states m \<and>
         sm_stateName m' = sm_stateName m \<and> childCalls m' = childCalls m \<and>
         sm_emitted m' = sm_emitted m)) \<and>
   (case StateMachine_changeState H n p m of
      Inl err \<Rightarrow> True
    | Inr m' \<Rightarrow> sm_visitedStates m' = sm_visitedStates m @ [n]) \<and>
   (case StateMachine_setup H fi c m of
      Inl err \<Rightarrow> True
    | Inr m' \<Rightarrow> sm_visitedStates m' = [resolveOption (sm_startingState m)]) \<and>
   (case StateMachine_update H fi m of
      Inl err \<Rightarrow> True
    | Inr m' \<Rightarrow>
        sm_visitedStates m' = sm_visitedStates m \<or>
        (\<exists>k. sm_visitedStates m' = sm_visitedStates m @ [k] \<and>
           (sm_stateName m' = JStr k \<or>
            k \<in> set (sm_endingStates m) \<and> requestedTransition m' = JStr k))) \<and>
   (case StateMachine_update H fi m of
      Inl err \<Rightarrow> True
    | Inr m' \<Rightarrow>
        (case sm_state m of
           None \<Rightarrow> sm_visitedStates m' = sm_visitedStates m
         | Some e \<Rightarrow>
             if truthy (requestedTransition (Entity_update H fi e)) then
               (\<exists>k. sm_visitedStates m' = sm_visitedStates m @ [k] \<and>
                  (sm_stateName m' = JStr k \<or>
                   k \<in> set (sm_endingStates m) \<and> requestedTransition m' = JStr k))
             else sm_visitedStates m' = sm_visitedStates m \<and>
                  sm_stateName m' = sm_stateName m))"
proof (intro conjI impI)
  assume "n \<in> set (sm_endingStates m)"
  then show "\<exists>m'. StateMachine_changeState H n p m = Inr m' \<and>
         requestedTransition m' = JStr n \<and> sm_visitedStates m' = sm_visitedStates m @ [n] \<and>
         sm_state m' = sm_state m \<and> sm_states m' = sm_states m \<and>
         sm_stateName m' = sm_stateName m \<and> childCalls m' = childCalls m \<and>
         sm_emitted m' = sm_emitted m"
    by (simp add: StateMachine_changeState_def)
next
  show "case StateMachine_changeState H n p m of
      Inl err \<Rightarrow> True
    | Inr m' \<Rightarrow> sm_visitedStates m' = sm_visitedStates m @ [n]"
    using changeState_visited [of H n p m] by (auto split: sum.splits)
next
  let ?m1 = "(Entity_setup baseHooks fi c m)
                 \<lparr>sm_visitedStates := [], sm_progress := sm_startingProgress m\<rparr>"
  have s: "sm_startingState ?m1 = sm_startingState m" "sm_visitedStates ?m1 = []"
    by (simp_all add: Entity_setup_def baseHooks_def console_error_def Let_def)
  show "case StateMachine_setup H fi c m of
      Inl err \<Rightarrow> True
    | Inr m' \<Rightarrow> sm_visitedStates m' = [resolveOption (sm_startingState m)]"
    using changeState_visited [of H "resolveOption (sm_startingState ?m1)"
        "resolveOption (sm_startingStateParams ?m1)" ?m1]
    unfolding StateMachine_setup_def Let_def
    by (auto simp: s split: sum.splits)
next
  show "case StateMachine_update H fi m of
      Inl err \<Rightarrow> True
    | Inr m' \<Rightarrow>
        sm_visitedStates m' = sm_visitedStates m \<or>
        (\<exists>k. sm_visitedStates m' = sm_visitedStates m @ [k] \<and>
           (sm_stateName m' = JStr k \<or>
            k \<in> set (sm_endingStates m) \<and> requestedTransition m' = JStr k))"
    using update_visited [of H fi m] by (auto split: sum.splits)
next
  show "case StateMachine_update H fi m of
      Inl err \<Rightarrow> True
    | Inr m' \<Rightarrow>
        (case sm_state m of
           None \<Rightarrow> sm_visitedStates m' = sm_visitedStates m
         | Some e \<Rightarrow>
             if truthy (requestedTransition (Entity_update H fi e)) then
               (\<exists>k. sm_visitedStates m' = sm_visitedStates m @ [k] \<and>
                  (sm_stateName m' = JStr k \<or>
                   k \<in> set (sm_endingStates m) \<and> requestedTransition m' = JStr k))
             else sm_visitedStates m' = sm_visitedStates m \<and>
                  sm_stateName m' = sm_stateName m)"
  proof (cases "StateMachine_update H fi m")
    case (Inl err)
    then show ?thesis by simp
  next
    case (Inr m')
    from update_visited_exact [OF Inr] show ?thesis by (simp add: Inr)
  qed
qed

lemma machineExample_run:
  "StateMachine_setup scriptedHooks (Some frame0) (Some []) machineExample = Inr machineExample1"
  "StateMachine_update scriptedHooks (Some frame0) machineExample1 = Inr machineExample2"
  "StateMachine_update scriptedHooks (Some frame0) machineExample2 = Inr machineExample3"
  by (simp_all add: machineExample3_def machineExample2_def machineExample1_def
      machineExample_def machine_defs)

lemma machineExample_states:
  "sm_visitedStates machineExample1 = [''start'']"
  "sm_visitedStates machineExample2 = [''start'', ''middle'']"
  "sm_stateName machineExample2 = JStr ''middle''"
  "sm_endingStates machineExample2 = [''end'']"
  "childCalls machineExample2 = [SetupCall 0, UpdateCall 0, TeardownCall 0, SetupCall 0]"
  "map_option isSetup (sm_state machineExample2) = Some True"
  by (simp_all add: machineExample2_def machineExample1_def machineExample_def machine_defs)

lemma machineExample_end:
  "sm_visitedStates machineExample3 = [''start'', ''middle'', ''end'']"
  "requestedTransition machineExample3 = JStr ''end''"
  "sm_stateName machineExample3 = JStr ''middle''"
  "map_option isSetup (sm_state machineExample3) = Some True"
  "childCalls machineExample3 =
     [SetupCall 0, UpdateCall 0, TeardownCall 0, SetupCall 0, UpdateCall 0]"
  by (simp_all add: machineExample3_def machineExample2_def machineExample1_def
      machineExample_def machine_defs)

theorem C3_visitedStates_and_ending_witness:
  "''end'' \<in> set (sm_endingStates machineExample2) \<and>
   (\<exists>m'. StateMachine_changeState scriptedHooks ''end'' JUndefined machineExample2 = Inr m' \<and>
      requestedTransition m' = JStr ''end'' \<and>
      sm_visitedStates m' = [''start'', ''middle'', ''end''] \<and>
      map_option isSetup (sm_state m') = Some True \<and>
      childCalls m' = [SetupCall 0, UpdateCall 0, TeardownCall 0, SetupCall 0]) \<and>
   sm_visitedStates machineExample1 = [''start''] \<and>
   sm_visitedStates machineExample3 = [''start'', ''middle'', ''end''] \<and>
   requestedTransition machineExample3 = JStr ''end''"
proof -
  have h: "''end'' \<in> set (sm_endingStates machineExample2)"
    by (simp add: machineExample_states)
  note t = C3_visitedStates_and_ending [where m = machineExample2 and n = "''end''"
      and p = JUndefined and H = scriptedHooks and fi = "Some frame0" and c = "Some []"]
  from t h obtain m' where
    "StateMachine_changeState scriptedHooks ''end'' JUndefined machineExample2 = Inr m'"
    "requestedTransition m' = JStr ''end''"
    "sm_visitedStates m' = sm_visitedStates machineExample2 @ [''end'']"
    "sm_state m' = sm_state machineExample2" "childCalls m' = childCalls machineExample2"
    by blast
  then have "\<exists>m'. StateMachine_changeState scriptedHooks ''end'' JUndefined machineExample2 = Inr m' \<and>
      requestedTransition m' = JStr ''end'' \<and>
      sm_visitedStates m' = [''start'', ''middle'', ''end''] \<and>
      map_option isSetup (sm_state m') = Some True \<and>
      childCalls m' = [SetupCall 0, UpdateCall 0, TeardownCall 0, SetupCall 0]"
    by (intro exI [of _ m']) (simp add: machineExample_states)
  with h show ?thesis by (simp add: machineExample_states machineExample_end)
qed

text \<open>
  C3, as the claim states it, fails on the machine of the example: after \<open>setup\<close>, a
  \<^verbatim>\<open>win\<close> from \<^verbatim>\<open>start\<close> and a \<^verbatim>\<open>finish\<close> from \<^verbatim>\<open>middle\<close>, the visited states are
  \<^verbatim>\<open>start\<close>, \<^verbatim>\<open>middle\<close>, \<^verbatim>\<open>end\<close>, and not the states other than the initial one.
\<close>

theorem C3_visitedStates_initial_counterexample:
  "StateMachine_setup scriptedHooks (Some frame0) (Some []) machineExample = Inr machineExample1 \<and>
   StateMachine_update scriptedHooks (Some frame0) machineExample1 = Inr machineExample2 \<and>
   StateMachine_update scriptedHooks (Some frame0) machineExample2 = Inr machineExample3 \<and>
   sm_visitedStates machineExample1 = [''start''] \<and>
   sm_visitedStates machineExample1 \<noteq> [] \<and>
   sm_visitedStates machineExample3 = [''start'', ''middle'', ''end''] \<and>
   sm_visitedStates machineExample3 \<noteq> [''middle'', ''end'']"
  by (simp add: machineExample_run machineExample_states machineExample_end)

end
